theory Spec2Isabelle
  imports Complex_Main
begin

section \<open>Batching helper\<close>

text \<open>
  The generic helper \<^verbatim>\<open>chunk\<close> of the Milvus components:
  \<^verbatim>\<open>
  func chunk[T any](slice []T, size int) [][]T {
      if size <= 0 { return nil }
      var chunks [][]T
      for size < len(slice) {
          slice, chunks = slice[size:], append(chunks, slice[0:size:size])
      }
      if len(slice) > 0 { chunks = append(chunks, slice) }
      return chunks
  }
  \<close>
  A slice is a list; the nil slice and the empty slice are both \<open>[]\<close> (they have the
  same length and range over nothing). The \<^verbatim>\<open>for\<close> loop is \<open>chunk_loop\<close>, on the
  pair (slice, chunks). The loop is entered only after the guard \<^verbatim>\<open>size <= 0\<close> has been
  passed; the condition \<open>0 < sz\<close> is repeated in the loop test, where it is what makes the
  remaining slice shorter at every round.
\<close>

function chunk_loop :: "'a list \<Rightarrow> int \<Rightarrow> 'a list list \<Rightarrow> 'a list \<times> 'a list list" where
  "chunk_loop slice sz chunks =
     (if 0 < sz \<and> sz < int (length slice)
      then chunk_loop (drop (nat sz) slice) sz (chunks @ [take (nat sz) slice])
      else (slice, chunks))"
  by pat_completeness auto
termination
  by (relation "measure (\<lambda>(slice, sz, chunks). length slice)") auto

declare chunk_loop.simps [simp del]

definition chunk :: "'a list \<Rightarrow> int \<Rightarrow> 'a list list" where
  "chunk slice sz =
     (if sz \<le> 0 then []
      else (case chunk_loop slice sz [] of
              (rest, chunks) \<Rightarrow> if length rest > 0 then chunks @ [rest] else chunks))"

section \<open>Errors, panics and results\<close>

text \<open>
  A Go call of these components ends in one of three ways: it returns a value, it returns
  an error, or it panics (a nil pointer is dereferenced, a slice is read out of range).
  Errors the components build themselves are told apart from the errors the collaborators
  (the embedder, the Milvus client) hand back, which are carried as \<open>Upstream\<close> with the
  collaborator's message. The errors the components build:
  \<^item> \<open>ConfigError m\<close>: the two messages of \<^verbatim>\<open>NewIndexer\<close> and of \<^verbatim>\<open>NewRetriever\<close>;
  \<^item> \<open>InvalidReturnLength got expected\<close>:
    \<^verbatim>\<open>[customEmbedding] invalid return length of vector, got=%d, expected=%d\<close>;
  \<^item> \<open>ConvertDocumentsFailed e\<close>: \<^verbatim>\<open>convertDocuments failed: %w\<close> around \<open>e\<close>;
  \<^item> \<open>UpsertFailed e\<close>: \<^verbatim>\<open>Upsert failed: %v\<close> around \<open>e\<close>;
  \<^item> \<open>ResultFieldNotMatch\<close>: \<^verbatim>\<open>result field not math\<close>;
  \<^item> \<open>IndexOutOfRange\<close>: the error of the client library's \<^verbatim>\<open>ValueByIdx\<close>.
\<close>

datatype err =
    Upstream string
  | ConfigError string
  | InvalidReturnLength nat nat
  | ConvertDocumentsFailed err
  | UpsertFailed err
  | ResultFieldNotMatch
  | IndexOutOfRange

datatype panic = NilPointerDereference | IndexOutOfRangePanic

datatype 'a result = Ok 'a | Error err | Panic panic

section \<open>Documents, columns and collaborators\<close>

text \<open>
  \<open>'f\<close> stands for \<^verbatim>\<open>float64\<close>, \<open>'g\<close> for \<^verbatim>\<open>float32\<close> and \<open>'d\<close> for the filter
  expression (a \<^verbatim>\<open>map[string]any\<close>); the conversions between the two float types are
  parameters (\<open>float32\<close>, \<open>float64\<close>) of the environment. The values a document's metadata
  holds are scores and filter expressions; whatever else a caller stores is \<open>Other\<close>.
\<close>

datatype ('f, 'd) any = Float64 'f | DSLInfo 'd | Other string

record ('f, 'd) Document =
  ID :: string
  Content :: string
  MetaData :: "string \<rightharpoonup> ('f, 'd) any"

text \<open>The metadata keys of the framework's document type, and its two setters.\<close>

definition docMetaDataKeyScore :: string where
  "docMetaDataKeyScore = ''_score''"

definition docMetaDataKeyDSL :: string where
  "docMetaDataKeyDSL = ''_dsl''"

definition WithScore :: "('f, 'd) Document \<Rightarrow> 'f \<Rightarrow> ('f, 'd) Document" where
  "WithScore d score = d\<lparr>MetaData := (MetaData d)(docMetaDataKeyScore \<mapsto> Float64 score)\<rparr>"

definition WithDSLInfo :: "('f, 'd) Document \<Rightarrow> 'd \<Rightarrow> ('f, 'd) Document" where
  "WithDSLInfo d dslInfo = d\<lparr>MetaData := (MetaData d)(docMetaDataKeyDSL \<mapsto> DSLInfo dslInfo)\<rparr>"

text \<open>An embedder returns the vectors or an error message.\<close>

type_synonym 'f Embedder = "string list \<Rightarrow> string + 'f list list"

text \<open>Columns of the store's client library, by their element type.\<close>

datatype 'g Column =
    ColumnVarChar string "string list"
  | ColumnInt64 string "int list"
  | ColumnFloatVector string int "'g list list"

fun Name :: "'g Column \<Rightarrow> string" where
  "Name (ColumnVarChar n _) = n"
| "Name (ColumnInt64 n _) = n"
| "Name (ColumnFloatVector n _ _) = n"

text \<open>
  \<^verbatim>\<open>ColumnVarChar.ValueByIdx\<close> of the client library: an error, not a panic, when the index
  is out of range.
\<close>

definition ValueByIdx :: "string list \<Rightarrow> int \<Rightarrow> string result" where
  "ValueByIdx vals idx =
     (if idx < 0 \<or> int (length vals) \<le> idx then Error IndexOutOfRange
      else Ok (vals ! nat idx))"

datatype FieldType = FieldTypeVarChar | FieldTypeFloatVector

record Field =
  FieldName :: string
  DataType :: FieldType
  PrimaryKey :: bool
  TypeParams :: "(string \<times> int) list"

record Schema =
  CollectionName :: string
  Description :: string
  AutoID :: bool
  SchemaFields :: "Field list"

record 'g UpsertCall =
  upsertCollection :: string
  upsertPartition :: string
  upsertColumns :: "'g Column list"

datatype MetricType = L2 | IP

datatype SearchParam = IndexFlatSearchParam

record 'g SearchCall =
  searchCollection :: string
  searchPartitions :: "string list"
  searchExpr :: string
  searchOutputFields :: "string list"
  searchVectors :: "'g list list"
  searchVectorField :: string
  searchMetric :: MetricType
  searchTopK :: int
  searchParam :: SearchParam

text \<open>
  One result set of a search; of the client library's \<^verbatim>\<open>SearchResult\<close> only the fields the
  retriever reads are kept.
\<close>

record 'g SearchResult =
  ResultCount :: int
  Fields :: "'g Column list"
  Scores :: "'g list"

text \<open>
  The collaborators. The store is remote state: what a call answers may depend on the
  calls issued before it, so \<open>Upsert\<close> and \<open>Search\<close> take the history of calls of their
  kind, and every operation returns the history it leaves behind. An answer \<open>Some m\<close>
  (or \<open>Inl m\<close>) is an error with message \<open>m\<close>.
\<close>

record ('f, 'g) Env =
  NewClient :: "string \<Rightarrow> string \<Rightarrow> string \<Rightarrow> string \<Rightarrow> string option"
  HasCollection :: "string \<Rightarrow> string + bool"
  CreateCollection :: "Schema \<Rightarrow> string option"
  Upsert :: "'g UpsertCall list \<Rightarrow> 'g UpsertCall \<Rightarrow> string option"
  Search :: "'g SearchCall list \<Rightarrow> 'g SearchCall \<Rightarrow> string + 'g SearchResult list"
  float32 :: "'f \<Rightarrow> 'g"
  float64 :: "'g \<Rightarrow> 'f"

section \<open>Constants\<close>

definition defaultFieldID :: string where
  "defaultFieldID = ''ID''"

definition defaultFieldVector :: string where
  "defaultFieldVector = ''vector''"

definition defaultFieldSparseVector :: string where
  "defaultFieldSparseVector = ''sparse_vector''"

definition defaultFieldContent :: string where
  "defaultFieldContent = ''content''"

definition defaultAddBatchSize :: int where
  "defaultAddBatchSize = 5"

definition defaultVectorDim :: int where
  "defaultVectorDim = 1024"

definition defaultIdMaxLen :: int where
  "defaultIdMaxLen = 64"

definition defaultTopK :: int where
  "defaultTopK = 100"

definition defaultPartition :: string where
  "defaultPartition = ''default''"

text \<open>
  Modelled from the spec: the retriever package's constants \<^verbatim>\<open>defaultReturnFieldID\<close> and
  \<^verbatim>\<open>defaultReturnFieldContent\<close> are used by the retriever but declared in a file that is
  not among the sources. The spec fixes the schema's field names as \<^verbatim>\<open>ID\<close> and
  \<^verbatim>\<open>content\<close>, the names the indexer writes. The retriever's \<^verbatim>\<open>defaultFieldVector\<close>
  is declared in the same missing file; the indexer's constant of that name, \<^verbatim>\<open>vector\<close>,
  stands for it.
\<close>

definition defaultReturnFieldID :: string where
  "defaultReturnFieldID = ''ID''"

definition defaultReturnFieldContent :: string where
  "defaultReturnFieldContent = ''content''"

section \<open>The indexer\<close>

record 'f EmbeddingConfig =
  UseBuiltin :: bool
  ModelName :: string
  UseSparse :: bool
  VectorDim :: int
  IdMaxLen :: int
  Embedding :: "'f Embedder option"

record 'f IndexerConfig =
  Address :: string
  Username :: string
  Password :: string
  DBName :: string
  Collection :: string
  EmbeddingConfig :: "'f EmbeddingConfig"
  AddBatchSize :: int

text \<open>
  An \<^verbatim>\<open>Indexer\<close> holds its configuration and its client; the client is the \<open>Upsert\<close>
  of the environment.
\<close>

record 'f Indexer =
  config :: "'f IndexerConfig"

record 'g Columns =
  ColumnsID :: "'g Column"
  ColumnsContent :: "'g Column"
  ColumnsVector :: "'g Column"

definition entitySchema :: "'f IndexerConfig \<Rightarrow> Schema" where
  "entitySchema cfg =
     \<lparr>CollectionName = Collection cfg,
      Description = ''this is the example collection for inser and search'',
      AutoID = False,
      SchemaFields =
        [\<lparr>FieldName = defaultFieldID, DataType = FieldTypeVarChar, PrimaryKey = True,
           TypeParams = [(''max_length'', IdMaxLen (EmbeddingConfig cfg))]\<rparr>,
         \<lparr>FieldName = defaultFieldContent, DataType = FieldTypeVarChar, PrimaryKey = False,
           TypeParams = [(''max_length'', 65535)]\<rparr>,
         \<lparr>FieldName = defaultFieldVector, DataType = FieldTypeFloatVector, PrimaryKey = False,
           TypeParams = [(''dim'', VectorDim (EmbeddingConfig cfg))]\<rparr>]\<rparr>"

text \<open>
  The defaults \<^verbatim>\<open>NewIndexer\<close> writes into the configuration, one after the other, each
  when its field is zero:
  \<^verbatim>\<open>
  if config.AddBatchSize == 0 { config.AddBatchSize = defaultAddBatchSize }
  if config.EmbeddingConfig.VectorDim == 0 { config.EmbeddingConfig.VectorDim = defaultVectorDim }
  if config.EmbeddingConfig.IdMaxLen == 0 { config.EmbeddingConfig.IdMaxLen = defaultIdMaxLen }
  \<close>
\<close>

definition applyDefaults :: "'f IndexerConfig \<Rightarrow> 'f IndexerConfig" where
  "applyDefaults cfg =
     (let cfg1 = (if AddBatchSize cfg = 0 then cfg\<lparr>AddBatchSize := defaultAddBatchSize\<rparr>
                  else cfg);
          cfg2 = (if VectorDim (EmbeddingConfig cfg1) = 0
                  then cfg1\<lparr>EmbeddingConfig :=
                         (EmbeddingConfig cfg1)\<lparr>VectorDim := defaultVectorDim\<rparr>\<rparr>
                  else cfg1)
      in (if IdMaxLen (EmbeddingConfig cfg2) = 0
          then cfg2\<lparr>EmbeddingConfig :=
                 (EmbeddingConfig cfg2)\<lparr>IdMaxLen := defaultIdMaxLen\<rparr>\<rparr>
          else cfg2))"

text \<open>
  \<^verbatim>\<open>NewIndexer\<close>: the check of the embedding source, the defaults, then the client,
  \<^verbatim>\<open>HasCollection\<close> and, for a collection that does not exist, \<^verbatim>\<open>CreateCollection\<close>.
  Its last statement, which notes a built-in embedding function on the indexer when
  \<^verbatim>\<open>UseBuiltin\<close> is set, touches neither the configuration nor anything \<^verbatim>\<open>Store\<close> reads,
  and is left out.
\<close>

definition NewIndexer :: "('f, 'g) Env \<Rightarrow> 'f IndexerConfig \<Rightarrow> 'f Indexer result" where
  "NewIndexer env cfg =
     (if UseBuiltin (EmbeddingConfig cfg) \<and> Embedding (EmbeddingConfig cfg) \<noteq> None
      then Error (ConfigError
        ''[MilvusDBIndexer] no need to provide Embedding when UseBuiltin embedding is true'')
      else if \<not> UseBuiltin (EmbeddingConfig cfg) \<and> Embedding (EmbeddingConfig cfg) = None
      then Error (ConfigError
        ''[MilvusDBIndexer] need provide Embedding when UseBuiltin embedding is false'')
      else
        (case NewClient env (Address (applyDefaults cfg)) (Username (applyDefaults cfg))
                (Password (applyDefaults cfg)) (DBName (applyDefaults cfg)) of
           Some e \<Rightarrow> Error (Upstream e)
         | None \<Rightarrow>
            (case HasCollection env (Collection (applyDefaults cfg)) of
               Inl e \<Rightarrow> Error (Upstream e)
             | Inr has \<Rightarrow>
                (if \<not> has
                 then (case CreateCollection env (entitySchema (applyDefaults cfg)) of
                         Some e \<Rightarrow> Error (Upstream e)
                       | None \<Rightarrow> Ok \<lparr>config = applyDefaults cfg\<rparr>)
                 else Ok \<lparr>config = applyDefaults cfg\<rparr>))))"

text \<open>
  The framework's common options of an indexer and the options a caller passes; each
  option overwrites its own field, in the order given, and an implementation-specific
  option leaves the common options alone.
\<close>

record 'f IndexerOptions =
  optSubIndexes :: "string list"
  optEmbedding :: "'f Embedder option"

datatype 'f IndexerOption =
    WithSubIndexes "string list"
  | WithEmbedding "'f Embedder option"
  | ImplSpecificOption

fun applyIndexerOption :: "'f IndexerOptions \<Rightarrow> 'f IndexerOption \<Rightarrow> 'f IndexerOptions" where
  "applyIndexerOption base (WithSubIndexes xs) = base\<lparr>optSubIndexes := xs\<rparr>"
| "applyIndexerOption base (WithEmbedding emb) = base\<lparr>optEmbedding := emb\<rparr>"
| "applyIndexerOption base ImplSpecificOption = base"

definition GetCommonOptions :: "'f IndexerOptions \<Rightarrow> 'f IndexerOption list \<Rightarrow> 'f IndexerOptions" where
  "GetCommonOptions base opts = foldl applyIndexerOption base opts"

text \<open>
  \<^verbatim>\<open>Indexer.customEmbedding\<close>. Calling the embedder through a nil interface panics. On a
  wrong count the error is built from \<^verbatim>\<open>len(vectors)\<close>, the result not yet assigned, so
  the count it reports as got is 0.
\<close>

definition customEmbedding ::
  "('f, 'g) Env \<Rightarrow> string list \<Rightarrow> 'f IndexerOptions \<Rightarrow> 'g list list result" where
  "customEmbedding env queries options =
     (case optEmbedding options of
        None \<Rightarrow> Panic NilPointerDereference
      | Some emb \<Rightarrow>
         (case emb queries of
            Inl e \<Rightarrow> Error (Upstream e)
          | Inr tempVectors \<Rightarrow>
             if length tempVectors \<noteq> length queries
             then Error (InvalidReturnLength 0 (length queries))
             else Ok (map (map (float32 env)) tempVectors)))"

definition getVectorDim :: "'f Indexer \<Rightarrow> int" where
  "getVectorDim i = VectorDim (EmbeddingConfig (config i))"

definition convertDocuments ::
  "('f, 'g) Env \<Rightarrow> 'f Indexer \<Rightarrow> ('f, 'd) Document list \<Rightarrow> 'f IndexerOptions \<Rightarrow> 'g Columns result" where
  "convertDocuments env i docs options =
     (case customEmbedding env (map Content docs) options of
        Error e \<Rightarrow> Error e
      | Panic p \<Rightarrow> Panic p
      | Ok vectors \<Rightarrow>
         Ok \<lparr>ColumnsID = ColumnVarChar defaultFieldID (map ID docs),
             ColumnsContent = ColumnVarChar defaultFieldContent (map Content docs),
             ColumnsVector = ColumnFloatVector defaultFieldVector (getVectorDim i) vectors\<rparr>)"

definition upsertCall :: "'f Indexer \<Rightarrow> 'g Columns \<Rightarrow> 'g UpsertCall" where
  "upsertCall i columns =
     \<lparr>upsertCollection = Collection (config i), upsertPartition = [],
      upsertColumns = [ColumnsID columns, ColumnsContent columns, ColumnsVector columns]\<rparr>"

text \<open>
  The loop of \<^verbatim>\<open>Store\<close> over the batches, with the IDs gathered so far and the history
  of upsert calls. A failed upsert has been issued: it is part of the history. The
  callbacks of \<^verbatim>\<open>Store\<close> (start, end, error) do not change what is returned or written
  and are left out.
\<close>

fun Store_loop ::
  "('f, 'g) Env \<Rightarrow> 'f Indexer \<Rightarrow> 'f IndexerOptions \<Rightarrow> ('f, 'd) Document list list \<Rightarrow>
   string list \<Rightarrow> 'g UpsertCall list \<Rightarrow> string list result \<times> 'g UpsertCall list" where
  "Store_loop env i options [] ids calls = (Ok ids, calls)"
| "Store_loop env i options (sub # rest) ids calls =
     (case convertDocuments env i sub options of
        Error e \<Rightarrow> (Error (ConvertDocumentsFailed e), calls)
      | Panic p \<Rightarrow> (Panic p, calls)
      | Ok columns \<Rightarrow>
         (case Upsert env calls (upsertCall i columns) of
            Some e \<Rightarrow> (Error (UpsertFailed (Upstream e)), calls @ [upsertCall i columns])
          | None \<Rightarrow>
             Store_loop env i options rest (ids @ map ID sub) (calls @ [upsertCall i columns])))"

definition Store ::
  "('f, 'g) Env \<Rightarrow> 'f Indexer \<Rightarrow> ('f, 'd) Document list \<Rightarrow> 'f IndexerOption list \<Rightarrow>
   'g UpsertCall list \<Rightarrow> string list result \<times> 'g UpsertCall list" where
  "Store env i docs opts calls =
     (let options = GetCommonOptions
            \<lparr>optSubIndexes = [], optEmbedding = Embedding (EmbeddingConfig (config i))\<rparr> opts
      in Store_loop env i options (chunk docs (AddBatchSize (config i))) [] calls)"

section \<open>The retriever\<close>

text \<open>
  The retriever package declares its own configuration types; fields whose names the
  indexer's types already use carry the prefix \<open>r\<close>. \<^verbatim>\<open>TopK\<close> and \<^verbatim>\<open>ScoreThreshold\<close> are
  pointers: \<open>None\<close> is nil.
\<close>

record 'f RetrieverEmbeddingConfig =
  rUseBuiltin :: bool
  rModelName :: string
  rUseSparse :: bool
  DenseWeight :: 'f
  rEmbedding :: "'f Embedder option"

record ('f, 'd) RetrieverConfig =
  rAddress :: string
  rUsername :: string
  rPassword :: string
  rDBName :: string
  ConnectionTimeout :: int
  rCollection :: string
  Index :: string
  rEmbeddingConfig :: "'f RetrieverEmbeddingConfig"
  Partition :: string
  TopK :: "int option"
  ScoreThreshold :: "'f option"
  FilterDSL :: 'd

record ('f, 'd) Retriever =
  rconfig :: "('f, 'd) RetrieverConfig"

definition NewRetriever ::
  "('f, 'g) Env \<Rightarrow> ('f, 'd) RetrieverConfig \<Rightarrow> ('f, 'd) Retriever result" where
  "NewRetriever env cfg =
     (if rUseBuiltin (rEmbeddingConfig cfg) \<and> rEmbedding (rEmbeddingConfig cfg) \<noteq> None
      then Error (ConfigError
        ''[VikingDBRetriever] no need to provide Embedding when UseBuiltin embedding is true'')
      else if \<not> rUseBuiltin (rEmbeddingConfig cfg) \<and> rEmbedding (rEmbeddingConfig cfg) = None
      then Error (ConfigError
        ''[VikingDBRetriever] need provide Embedding when UseBuiltin embedding is false'')
      else
        (case NewClient env (rAddress cfg) (rUsername cfg) (rPassword cfg) (rDBName cfg) of
           Some e \<Rightarrow> Error (Upstream e)
         | None \<Rightarrow>
            Ok \<lparr>rconfig = (if length (Partition cfg) = 0
                            then cfg\<lparr>Partition := defaultPartition\<rparr> else cfg)\<rparr>))"

text \<open>
  The framework's common options of a retriever. Pointer fields are options; a caller's
  option overwrites its own field.
\<close>

record ('f, 'd) RetrieverOptions =
  roptIndex :: "string option"
  roptSubIndex :: "string option"
  roptTopK :: "int option"
  roptScoreThreshold :: "'f option"
  roptEmbedding :: "'f Embedder option"
  roptDSLInfo :: 'd

datatype ('f, 'd) RetrieverOption =
    WithIndex string
  | WithSubIndex string
  | WithTopK int
  | WithScoreThreshold 'f
  | RetrieverWithEmbedding "'f Embedder option"
  | WithDSLInfoOption 'd
  | RetrieverImplSpecificOption

fun applyRetrieverOption ::
  "('f, 'd) RetrieverOptions \<Rightarrow> ('f, 'd) RetrieverOption \<Rightarrow> ('f, 'd) RetrieverOptions" where
  "applyRetrieverOption base (WithIndex x) = base\<lparr>roptIndex := Some x\<rparr>"
| "applyRetrieverOption base (WithSubIndex x) = base\<lparr>roptSubIndex := Some x\<rparr>"
| "applyRetrieverOption base (WithTopK k) = base\<lparr>roptTopK := Some k\<rparr>"
| "applyRetrieverOption base (WithScoreThreshold t) = base\<lparr>roptScoreThreshold := Some t\<rparr>"
| "applyRetrieverOption base (RetrieverWithEmbedding emb) = base\<lparr>roptEmbedding := emb\<rparr>"
| "applyRetrieverOption base (WithDSLInfoOption dsl) = base\<lparr>roptDSLInfo := dsl\<rparr>"
| "applyRetrieverOption base RetrieverImplSpecificOption = base"

definition GetCommonRetrieverOptions ::
  "('f, 'd) RetrieverOptions \<Rightarrow> ('f, 'd) RetrieverOption list \<Rightarrow> ('f, 'd) RetrieverOptions" where
  "GetCommonRetrieverOptions base opts = foldl applyRetrieverOption base opts"

text \<open>
  The options \<^verbatim>\<open>Retrieve\<close> resolves: the caller's options laid over the configuration.
\<close>

definition resolveOptions ::
  "('f, 'd) Retriever \<Rightarrow> ('f, 'd) RetrieverOption list \<Rightarrow> ('f, 'd) RetrieverOptions" where
  "resolveOptions r opts =
     GetCommonRetrieverOptions
       \<lparr>roptIndex = Some (Index (rconfig r)),
        roptSubIndex = Some (Partition (rconfig r)),
        roptTopK = TopK (rconfig r),
        roptScoreThreshold = ScoreThreshold (rconfig r),
        roptEmbedding = rEmbedding (rEmbeddingConfig (rconfig r)),
        roptDSLInfo = FilterDSL (rconfig r)\<rparr> opts"

text \<open>\<^verbatim>\<open>Retriever.customEmbedding\<close>: one query, exactly one vector expected.\<close>

definition retrieverCustomEmbedding ::
  "('f, 'g) Env \<Rightarrow> string \<Rightarrow> ('f, 'd) RetrieverOptions \<Rightarrow> 'g list result" where
  "retrieverCustomEmbedding env query options =
     (case roptEmbedding options of
        None \<Rightarrow> Panic NilPointerDereference
      | Some emb \<Rightarrow>
         (case emb [query] of
            Inl e \<Rightarrow> Error (Upstream e)
          | Inr tempVectors \<Rightarrow>
             (case tempVectors of
                [firstVector] \<Rightarrow> Ok (map (float32 env) firstVector)
              | _ \<Rightarrow> Error (InvalidReturnLength (length tempVectors) 1))))"

text \<open>
  \<^verbatim>\<open>Retriever.data2Document\<close>. Its loop over the fields keeps, for each of the two names,
  the last field of that name that is a var-char column (\<open>None\<close> is the nil pointer).
\<close>

fun selectColumns ::
  "'g Column list \<Rightarrow> string list option \<Rightarrow> string list option \<Rightarrow>
   string list option \<times> string list option" where
  "selectColumns [] idColumn contentColumn = (idColumn, contentColumn)"
| "selectColumns (field # rest) idColumn contentColumn =
     (if Name field = defaultReturnFieldID
      then (case field of
              ColumnVarChar n c \<Rightarrow> selectColumns rest (Some c) contentColumn
            | ColumnInt64 n c \<Rightarrow> selectColumns rest idColumn contentColumn
            | ColumnFloatVector n width c \<Rightarrow> selectColumns rest idColumn contentColumn)
      else if Name field = defaultReturnFieldContent
      then (case field of
              ColumnVarChar n c \<Rightarrow> selectColumns rest idColumn (Some c)
            | ColumnInt64 n c \<Rightarrow> selectColumns rest idColumn contentColumn
            | ColumnFloatVector n width c \<Rightarrow> selectColumns rest idColumn contentColumn)
      else selectColumns rest idColumn contentColumn)"

definition data2Document :: "('f, 'g) Env \<Rightarrow> 'g SearchResult \<Rightarrow> ('f, 'd) Document result" where
  "data2Document env data =
     (case selectColumns (Fields data) None None of
        (None, _) \<Rightarrow> Error ResultFieldNotMatch
      | (Some idColumn, None) \<Rightarrow> Error ResultFieldNotMatch
      | (Some idColumn, Some contentColumn) \<Rightarrow>
         if ResultCount data = 0 then Error ResultFieldNotMatch
         else (case ValueByIdx idColumn 0 of
                 Error e \<Rightarrow> Error e
               | Panic p \<Rightarrow> Panic p
               | Ok docID \<Rightarrow>
                  (case ValueByIdx contentColumn 0 of
                     Error e \<Rightarrow> Error e
                   | Panic p \<Rightarrow> Panic p
                   | Ok content \<Rightarrow>
                      (case Scores data of
                         [] \<Rightarrow> Panic IndexOutOfRangePanic
                       | score # _ \<Rightarrow>
                          Ok (WithScore \<lparr>ID = docID, Content = content, MetaData = Map.empty\<rparr>
                                (float64 env score))))))"

text \<open>The loop of \<^verbatim>\<open>Retrieve\<close> over the result sets of the search.\<close>

fun Retrieve_loop ::
  "('f, 'g) Env \<Rightarrow> 'd \<Rightarrow> 'g SearchResult list \<Rightarrow> ('f, 'd) Document list \<Rightarrow>
   ('f, 'd) Document list result" where
  "Retrieve_loop env dsl [] docs = Ok docs"
| "Retrieve_loop env dsl (data # rest) docs =
     (case data2Document env data of
        Error e \<Rightarrow> Error e
      | Panic p \<Rightarrow> Panic p
      | Ok doc \<Rightarrow> Retrieve_loop env dsl rest (docs @ [WithDSLInfo doc dsl]))"

text \<open>
  The call \<^verbatim>\<open>Retrieve\<close> sends to the store. The limit is read from the configuration,
  \<^verbatim>\<open>*r.config.TopK\<close>, and the partition list and the expression are empty.
\<close>

definition searchCall :: "('f, 'd) Retriever \<Rightarrow> 'g list \<Rightarrow> int \<Rightarrow> 'g SearchCall" where
  "searchCall r dense k =
     \<lparr>searchCollection = rCollection (rconfig r),
      searchPartitions = [],
      searchExpr = [],
      searchOutputFields = [defaultReturnFieldID, defaultReturnFieldContent],
      searchVectors = [dense],
      searchVectorField = defaultFieldVector,
      searchMetric = L2,
      searchTopK = k,
      searchParam = IndexFlatSearchParam\<rparr>"

text \<open>
  \<^verbatim>\<open>Retrieve\<close>, with the history of search calls. The arguments of the search are
  evaluated before the call: a nil \<^verbatim>\<open>TopK\<close> in the configuration panics with no search
  issued. The callbacks (start, end, error) do not change what is returned and are left
  out.
\<close>

definition Retrieve ::
  "('f, 'g) Env \<Rightarrow> ('f, 'd) Retriever \<Rightarrow> string \<Rightarrow> ('f, 'd) RetrieverOption list \<Rightarrow>
   'g SearchCall list \<Rightarrow> ('f, 'd) Document list result \<times> 'g SearchCall list" where
  "Retrieve env r query opts calls =
     (let options = resolveOptions r opts in
      case retrieverCustomEmbedding env query options of
        Error e \<Rightarrow> (Error e, calls)
      | Panic p \<Rightarrow> (Panic p, calls)
      | Ok dense \<Rightarrow>
         (case TopK (rconfig r) of
            None \<Rightarrow> (Panic NilPointerDereference, calls)
          | Some k \<Rightarrow>
             (case Search env calls (searchCall r dense k) of
                Inl e \<Rightarrow> (Error (Upstream e), calls @ [searchCall r dense k])
              | Inr result \<Rightarrow>
                 (Retrieve_loop env (roptDSLInfo options) result [],
                  calls @ [searchCall r dense k]))))"

section \<open>Notions used to state the properties\<close>

text \<open>The type assertion \<^verbatim>\<open>field.(*entity.ColumnVarChar)\<close> succeeds on var-char columns only.\<close>

fun isColumnVarChar :: "'g Column \<Rightarrow> bool" where
  "isColumnVarChar (ColumnVarChar n c) = True"
| "isColumnVarChar (ColumnInt64 n c) = False"
| "isColumnVarChar (ColumnFloatVector n width c) = False"

text \<open>A result set cut down to its first row: every column and the scores keep one entry.\<close>

fun firstRowOfColumn :: "'g Column \<Rightarrow> 'g Column" where
  "firstRowOfColumn (ColumnVarChar n c) = ColumnVarChar n (take 1 c)"
| "firstRowOfColumn (ColumnInt64 n c) = ColumnInt64 n (take 1 c)"
| "firstRowOfColumn (ColumnFloatVector n width c) = ColumnFloatVector n width (take 1 c)"

definition firstRow :: "'g SearchResult \<Rightarrow> 'g SearchResult" where
  "firstRow data =
     data\<lparr>Fields := map firstRowOfColumn (Fields data), Scores := take 1 (Scores data)\<rparr>"

section \<open>Example inputs\<close>

text \<open>
  A store that accepts everything, an embedder that returns one vector per text, one that
  returns a vector too few, and one that fails. Floats are taken as reals here, with the
  conversions the identity.
\<close>

definition okEmbedder :: "real Embedder" where
  "okEmbedder texts = Inr (map (\<lambda>t. [1, 2]) texts)"

definition shortEmbedder :: "real Embedder" where
  "shortEmbedder texts = Inr (map (\<lambda>t. [1, 2]) (tl texts))"

definition failingEmbedder :: "real Embedder" where
  "failingEmbedder texts = Inl ''embedding unavailable''"

definition exResult :: "real SearchResult" where
  "exResult =
     \<lparr>ResultCount = 2,
      Fields = [ColumnVarChar ''ID'' [''doc-1'', ''doc-2''],
                ColumnVarChar ''content'' [''hello'', ''world'']],
      Scores = [1 / 4, 3]\<rparr>"

text \<open>A result set of one row, its content field ahead of its ID field.\<close>

definition exResultOneRow :: "real SearchResult" where
  "exResultOneRow =
     \<lparr>ResultCount = 1,
      Fields = [ColumnVarChar ''content'' [''bonjour''], ColumnVarChar ''ID'' [''doc-7'']],
      Scores = [2]\<rparr>"

definition exResultNoContent :: "real SearchResult" where
  "exResultNoContent =
     \<lparr>ResultCount = 1, Fields = [ColumnVarChar ''ID'' [''doc-1'']], Scores = [1 / 4]\<rparr>"

definition exEnv :: "(real, real) Env" where
  "exEnv =
     \<lparr>NewClient = (\<lambda>address username password dbname. None),
      HasCollection = (\<lambda>collection. Inr True),
      CreateCollection = (\<lambda>schema. None),
      Upsert = (\<lambda>history call. None),
      Search = (\<lambda>history call. Inr [exResult]),
      float32 = (\<lambda>x. x),
      float64 = (\<lambda>x. x)\<rparr>"

text \<open>The same store, refusing its second upsert.\<close>

definition exEnvSecondUpsertFails :: "(real, real) Env" where
  "exEnvSecondUpsertFails =
     exEnv\<lparr>Upsert := (\<lambda>history call. if length history = 1 then Some ''connection lost''
                                      else None)\<rparr>"

text \<open>The same store, answering a search with a result set that lacks the content field.\<close>

definition exEnvNoContent :: "(real, real) Env" where
  "exEnvNoContent = exEnv\<lparr>Search := (\<lambda>history call. Inr [exResultNoContent])\<rparr>"

text \<open>The same store, answering a search with two result sets.\<close>

definition exEnvTwoResults :: "(real, real) Env" where
  "exEnvTwoResults = exEnv\<lparr>Search := (\<lambda>history call. Inr [exResult, exResultOneRow])\<rparr>"

definition exIndexerConfig :: "int \<Rightarrow> real Embedder \<Rightarrow> real IndexerConfig" where
  "exIndexerConfig batchSize emb =
     \<lparr>Address = ''localhost:19530'', Username = [], Password = [], DBName = [],
      Collection = ''eino_test'',
      EmbeddingConfig =
        \<lparr>UseBuiltin = False, ModelName = [], UseSparse = False, VectorDim = 2, IdMaxLen = 0,
         Embedding = Some emb\<rparr>,
      AddBatchSize = batchSize\<rparr>"

definition exIndexer :: "int \<Rightarrow> real Embedder \<Rightarrow> real Indexer" where
  "exIndexer batchSize emb =
     \<lparr>config = (exIndexerConfig batchSize emb)
        \<lparr>EmbeddingConfig := (EmbeddingConfig (exIndexerConfig batchSize emb))
           \<lparr>IdMaxLen := 64\<rparr>\<rparr>\<rparr>"

definition exDoc :: "string \<Rightarrow> (real, string) Document" where
  "exDoc name = \<lparr>ID = name, Content = ''text of '' @ name, MetaData = Map.empty\<rparr>"

definition exDocs12 :: "(real, string) Document list" where
  "exDocs12 = map exDoc [''d01'', ''d02'', ''d03'', ''d04'', ''d05'', ''d06'',
                          ''d07'', ''d08'', ''d09'', ''d10'', ''d11'', ''d12'']"

definition exRetrieverConfig ::
  "string \<Rightarrow> int option \<Rightarrow> real Embedder \<Rightarrow> (real, string) RetrieverConfig" where
  "exRetrieverConfig part topK emb =
     \<lparr>rAddress = ''localhost:19530'', rUsername = [], rPassword = [], rDBName = [],
      ConnectionTimeout = 0, rCollection = ''eino_test'', Index = [],
      rEmbeddingConfig =
        \<lparr>rUseBuiltin = False, rModelName = [], rUseSparse = False, DenseWeight = 0,
         rEmbedding = Some emb\<rparr>,
      Partition = part, TopK = topK, ScoreThreshold = None, FilterDSL = ''filter''\<rparr>"

definition exRetriever :: "int option \<Rightarrow> real Embedder \<Rightarrow> (real, string) Retriever" where
  "exRetriever topK emb = \<lparr>rconfig = exRetrieverConfig ''default'' topK emb\<rparr>"

text \<open>An embedder that returns a vector too few on a batch of two texts only.\<close>

definition pairShortEmbedder :: "real Embedder" where
  "pairShortEmbedder texts =
     Inr (map (\<lambda>t. [1, 2]) (if length texts = 2 then tl texts else texts))"

section \<open>Properties of the batching helper\<close>

lemma chunk_loop_concat:
  "chunk_loop xs sz acc = (rest, cs) \<Longrightarrow> concat cs @ rest = concat acc @ xs"
proof (induction xs sz acc rule: chunk_loop.induct)
  case (1 slice sz chunks)
  show ?case
  proof (cases "0 < sz \<and> sz < int (length slice)")
    case True
    with "1.prems" have "chunk_loop (drop (nat sz) slice) sz (chunks @ [take (nat sz) slice]) = (rest, cs)"
      by (simp add: chunk_loop.simps [of slice])
    from "1.IH" [OF True this] show ?thesis by simp
  next
    case False
    with "1.prems" show ?thesis by (simp add: chunk_loop.simps [of slice])
  qed
qed

lemma chunk_loop_full:
  "chunk_loop xs sz acc = (rest, cs) \<Longrightarrow> \<forall>c \<in> set acc. int (length c) = sz
   \<Longrightarrow> \<forall>c \<in> set cs. int (length c) = sz"
proof (induction xs sz acc rule: chunk_loop.induct)
  case (1 slice sz chunks)
  show ?case
  proof (cases "0 < sz \<and> sz < int (length slice)")
    case True
    with "1.prems" have step: "chunk_loop (drop (nat sz) slice) sz (chunks @ [take (nat sz) slice]) = (rest, cs)"
      by (simp add: chunk_loop.simps [of slice])
    from True have "int (length (take (nat sz) slice)) = sz" by auto
    with "1.prems"(2) have "\<forall>c \<in> set (chunks @ [take (nat sz) slice]). int (length c) = sz"
      by auto
    from "1.IH" [OF True step this] show ?thesis .
  next
    case False
    with "1.prems" show ?thesis by (simp add: chunk_loop.simps [of slice])
  qed
qed

lemma chunk_loop_rest:
  "chunk_loop xs sz acc = (rest, cs) \<Longrightarrow> 0 < sz
   \<Longrightarrow> int (length rest) \<le> sz \<and> (xs \<noteq> [] \<longrightarrow> rest \<noteq> [])
       \<and> length rest mod nat sz = length xs mod nat sz"
proof (induction xs sz acc rule: chunk_loop.induct)
  case (1 slice sz chunks)
  show ?case
  proof (cases "0 < sz \<and> sz < int (length slice)")
    case True
    with "1.prems" have step: "chunk_loop (drop (nat sz) slice) sz (chunks @ [take (nat sz) slice]) = (rest, cs)"
      by (simp add: chunk_loop.simps [of slice])
    from "1.IH" [OF True step "1.prems"(2)]
    have ih: "int (length rest) \<le> sz" "drop (nat sz) slice \<noteq> [] \<longrightarrow> rest \<noteq> []"
      "length rest mod nat sz = length (drop (nat sz) slice) mod nat sz" by auto
    from True have le: "nat sz \<le> length slice" and ne: "drop (nat sz) slice \<noteq> []" by auto
    have "length (drop (nat sz) slice) mod nat sz = length slice mod nat sz"
      using le by (simp add: le_mod_geq)
    with ih ne show ?thesis by auto
  next
    case False
    with "1.prems" have "rest = slice" by (simp add: chunk_loop.simps [of slice])
    with False "1.prems"(2) show ?thesis by auto
  qed
qed

text \<open>
  C3. For every sequence \<open>S\<close> and every size \<open>k > 0\<close>, concatenating the batches of
  \<open>chunk S k\<close> in order gives back \<open>S\<close>; for \<open>k \<le> 0\<close> there are no batches; when
  \<open>length S mod k = 0\<close> every batch has length \<open>k\<close>, and otherwise every batch but the
  last has length \<open>k\<close> and the last one has length \<open>length S mod k\<close>.
\<close>

theorem chunk_partition:
  "(0 < k \<longrightarrow> concat (chunk S k) = S)
   \<and> (k \<le> 0 \<longrightarrow> chunk S k = [])
   \<and> (0 < k \<and> int (length S) mod k = 0 \<longrightarrow> (\<forall>b \<in> set (chunk S k). int (length b) = k))
   \<and> (0 < k \<and> int (length S) mod k \<noteq> 0 \<longrightarrow>
        chunk S k \<noteq> []
        \<and> (\<forall>b \<in> set (butlast (chunk S k)). int (length b) = k)
        \<and> int (length (last (chunk S k))) = int (length S) mod k)"
proof -
  obtain rest cs where loop: "chunk_loop S k [] = (rest, cs)"
    by (cases "chunk_loop S k []") auto
  have nonpos: "k \<le> 0 \<longrightarrow> chunk S k = []" by (simp add: chunk_def)
  { assume pos: "0 < k"
    have ch: "chunk S k = (if rest = [] then cs else cs @ [rest])"
      using pos loop by (simp add: chunk_def)
    have cat: "concat cs @ rest = S" using chunk_loop_concat [OF loop] by simp
    have full: "\<forall>c \<in> set cs. int (length c) = k" using chunk_loop_full [OF loop] by simp
    have rst: "int (length rest) \<le> k" "S \<noteq> [] \<longrightarrow> rest \<noteq> []"
      "length rest mod nat k = length S mod nat k"
      using chunk_loop_rest [OF loop pos] by auto
    have modk: "int (length S) mod k = int (length S mod nat k)"
      using pos by (simp add: zmod_int)
    have c1: "concat (chunk S k) = S" using ch cat by auto
    have c3: "int (length S) mod k = 0 \<longrightarrow> (\<forall>b \<in> set (chunk S k). int (length b) = k)"
    proof
      assume z: "int (length S) mod k = 0"
      with modk rst(3) have "length rest mod nat k = 0" by simp
      with rst(1) pos have "rest = [] \<or> int (length rest) = k"
        by (cases "length rest = nat k") (auto simp: mod_less)
      with ch full show "\<forall>b \<in> set (chunk S k). int (length b) = k" by auto
    qed
    have c4: "int (length S) mod k \<noteq> 0 \<longrightarrow>
        chunk S k \<noteq> [] \<and> (\<forall>b \<in> set (butlast (chunk S k)). int (length b) = k)
        \<and> int (length (last (chunk S k))) = int (length S) mod k"
    proof
      assume nz: "int (length S) mod k \<noteq> 0"
      with modk rst(3) have m: "length rest mod nat k \<noteq> 0" by simp
      then have ne: "rest \<noteq> []" by auto
      from m rst(1) pos have "length rest < nat k"
        by (cases "length rest = nat k") auto
      then have "length rest mod nat k = length rest" by simp
      with rst(3) modk have "int (length rest) = int (length S) mod k" by simp
      with ch ne full
      show "chunk S k \<noteq> [] \<and> (\<forall>b \<in> set (butlast (chunk S k)). int (length b) = k)
        \<and> int (length (last (chunk S k))) = int (length S) mod k" by simp
    qed
    note c1 c3 c4 }
  note pos = this
  show ?thesis
  proof (intro conjI impI)
    assume "0 < k" then show "concat (chunk S k) = S" by (rule pos(1))
  next
    assume "k \<le> 0" with nonpos show "chunk S k = []" by simp
  next
    assume "0 < k \<and> int (length S) mod k = 0"
    then show "\<forall>b \<in> set (chunk S k). int (length b) = k" using pos(2) by simp
  next
    assume "0 < k \<and> int (length S) mod k \<noteq> 0"
    then show "chunk S k \<noteq> []" using pos(3) by simp
  next
    assume "0 < k \<and> int (length S) mod k \<noteq> 0"
    then show "\<forall>b \<in> set (butlast (chunk S k)). int (length b) = k" using pos(3) by simp
  next
    assume "0 < k \<and> int (length S) mod k \<noteq> 0"
    then show "int (length (last (chunk S k))) = int (length S) mod k" using pos(3) by simp
  qed
qed

theorem chunk_partition_witness:
  "concat (chunk [1, 2, 3, 4, 5 :: nat] 2) = [1, 2, 3, 4, 5]
   \<and> chunk [1, 2, 3, 4, 5 :: nat] 2 \<noteq> []
   \<and> int (length (last (chunk [1, 2, 3, 4, 5 :: nat] 2))) = 1
   \<and> chunk [1, 2, 3 :: nat] (- 1) = []"
  using chunk_partition [of 2 "[1, 2, 3, 4, 5 :: nat]"]
    chunk_partition [of "- 1" "[1, 2, 3 :: nat]"]
  by simp

section \<open>Construction\<close>

lemma applyDefaults_AddBatchSize:
  "AddBatchSize (applyDefaults cfg) =
     (if AddBatchSize cfg = 0 then defaultAddBatchSize else AddBatchSize cfg)"
  by (simp add: applyDefaults_def Let_def)

lemma NewIndexer_past_check:
  assumes "UseBuiltin (EmbeddingConfig cfg) \<longleftrightarrow> Embedding (EmbeddingConfig cfg) = None"
  shows "(\<exists>e. NewIndexer env cfg = Error (Upstream e))
         \<or> NewIndexer env cfg = Ok \<lparr>config = applyDefaults cfg\<rparr>"
proof -
  let ?c = "applyDefaults cfg"
  have eq: "NewIndexer env cfg =
     (case NewClient env (Address ?c) (Username ?c) (Password ?c) (DBName ?c) of
           Some e \<Rightarrow> Error (Upstream e)
         | None \<Rightarrow>
            (case HasCollection env (Collection ?c) of
               Inl e \<Rightarrow> Error (Upstream e)
             | Inr has \<Rightarrow>
                (if \<not> has
                 then (case CreateCollection env (entitySchema ?c) of
                         Some e \<Rightarrow> Error (Upstream e)
                       | None \<Rightarrow> Ok \<lparr>config = ?c\<rparr>)
                 else Ok \<lparr>config = ?c\<rparr>)))"
    using assms by (cases "Embedding (EmbeddingConfig cfg)") (simp_all add: NewIndexer_def)
  show ?thesis
    unfolding eq by (simp split: option.split sum.split)
qed

lemma NewIndexer_Ok_config:
  assumes "NewIndexer env cfg = Ok i"
  shows "config i = applyDefaults cfg"
proof -
  have one: "UseBuiltin (EmbeddingConfig cfg) \<longleftrightarrow> Embedding (EmbeddingConfig cfg) = None"
    using assms by (cases "Embedding (EmbeddingConfig cfg)") (simp_all add: NewIndexer_def split: if_splits)
  from NewIndexer_past_check [OF one, of env] assms show ?thesis by auto
qed

lemma NewRetriever_past_check:
  assumes "rUseBuiltin (rEmbeddingConfig rcfg) \<longleftrightarrow> rEmbedding (rEmbeddingConfig rcfg) = None"
  shows "(\<exists>e. NewRetriever env rcfg = Error (Upstream e)) \<or> (\<exists>r. NewRetriever env rcfg = Ok r)"
  using assms
  by (cases "rEmbedding (rEmbeddingConfig rcfg)") (simp_all add: NewRetriever_def split: option.split)

text \<open>
  C9. Constructing the indexer or the retriever fails when built-in embedding is enabled
  and a custom embedder is supplied as well, and fails when built-in embedding is disabled
  and no custom embedder is supplied; construction gets past this check (it does not end in
  one of the two configuration errors) exactly when exactly one embedding source is
  configured.
\<close>

theorem embedding_source_exclusive:
  "(UseBuiltin (EmbeddingConfig cfg) \<and> Embedding (EmbeddingConfig cfg) \<noteq> None \<longrightarrow>
      NewIndexer env cfg = Error (ConfigError
        ''[MilvusDBIndexer] no need to provide Embedding when UseBuiltin embedding is true''))
   \<and> (\<not> UseBuiltin (EmbeddingConfig cfg) \<and> Embedding (EmbeddingConfig cfg) = None \<longrightarrow>
      NewIndexer env cfg = Error (ConfigError
        ''[MilvusDBIndexer] need provide Embedding when UseBuiltin embedding is false''))
   \<and> ((\<forall>m. NewIndexer env cfg \<noteq> Error (ConfigError m)) \<longleftrightarrow>
        (UseBuiltin (EmbeddingConfig cfg) \<longleftrightarrow> Embedding (EmbeddingConfig cfg) = None))
   \<and> (rUseBuiltin (rEmbeddingConfig rcfg) \<and> rEmbedding (rEmbeddingConfig rcfg) \<noteq> None \<longrightarrow>
      NewRetriever env rcfg = Error (ConfigError
        ''[VikingDBRetriever] no need to provide Embedding when UseBuiltin embedding is true''))
   \<and> (\<not> rUseBuiltin (rEmbeddingConfig rcfg) \<and> rEmbedding (rEmbeddingConfig rcfg) = None \<longrightarrow>
      NewRetriever env rcfg = Error (ConfigError
        ''[VikingDBRetriever] need provide Embedding when UseBuiltin embedding is false''))
   \<and> ((\<forall>m. NewRetriever env rcfg \<noteq> Error (ConfigError m)) \<longleftrightarrow>
        (rUseBuiltin (rEmbeddingConfig rcfg) \<longleftrightarrow> rEmbedding (rEmbeddingConfig rcfg) = None))"
proof -
  have i1: "UseBuiltin (EmbeddingConfig cfg) \<and> Embedding (EmbeddingConfig cfg) \<noteq> None \<longrightarrow>
      NewIndexer env cfg = Error (ConfigError
        ''[MilvusDBIndexer] no need to provide Embedding when UseBuiltin embedding is true'')"
    by (simp add: NewIndexer_def)
  have i2: "\<not> UseBuiltin (EmbeddingConfig cfg) \<and> Embedding (EmbeddingConfig cfg) = None \<longrightarrow>
      NewIndexer env cfg = Error (ConfigError
        ''[MilvusDBIndexer] need provide Embedding when UseBuiltin embedding is false'')"
    by (simp add: NewIndexer_def)
  have i3: "(\<forall>m. NewIndexer env cfg \<noteq> Error (ConfigError m)) \<longleftrightarrow>
        (UseBuiltin (EmbeddingConfig cfg) \<longleftrightarrow> Embedding (EmbeddingConfig cfg) = None)"
  proof
    assume "\<forall>m. NewIndexer env cfg \<noteq> Error (ConfigError m)"
    with i1 i2 show "UseBuiltin (EmbeddingConfig cfg) \<longleftrightarrow> Embedding (EmbeddingConfig cfg) = None"
      by blast
  next
    assume "UseBuiltin (EmbeddingConfig cfg) \<longleftrightarrow> Embedding (EmbeddingConfig cfg) = None"
    from NewIndexer_past_check [OF this, of env]
    show "\<forall>m. NewIndexer env cfg \<noteq> Error (ConfigError m)" by auto
  qed
  have r1: "rUseBuiltin (rEmbeddingConfig rcfg) \<and> rEmbedding (rEmbeddingConfig rcfg) \<noteq> None \<longrightarrow>
      NewRetriever env rcfg = Error (ConfigError
        ''[VikingDBRetriever] no need to provide Embedding when UseBuiltin embedding is true'')"
    by (simp add: NewRetriever_def)
  have r2: "\<not> rUseBuiltin (rEmbeddingConfig rcfg) \<and> rEmbedding (rEmbeddingConfig rcfg) = None \<longrightarrow>
      NewRetriever env rcfg = Error (ConfigError
        ''[VikingDBRetriever] need provide Embedding when UseBuiltin embedding is false'')"
    by (simp add: NewRetriever_def)
  have r3: "(\<forall>m. NewRetriever env rcfg \<noteq> Error (ConfigError m)) \<longleftrightarrow>
        (rUseBuiltin (rEmbeddingConfig rcfg) \<longleftrightarrow> rEmbedding (rEmbeddingConfig rcfg) = None)"
  proof
    assume "\<forall>m. NewRetriever env rcfg \<noteq> Error (ConfigError m)"
    with r1 r2 show "rUseBuiltin (rEmbeddingConfig rcfg) \<longleftrightarrow> rEmbedding (rEmbeddingConfig rcfg) = None"
      by blast
  next
    assume "rUseBuiltin (rEmbeddingConfig rcfg) \<longleftrightarrow> rEmbedding (rEmbeddingConfig rcfg) = None"
    from NewRetriever_past_check [OF this, of env]
    show "\<forall>m. NewRetriever env rcfg \<noteq> Error (ConfigError m)" by auto
  qed
  from i1 i2 i3 r1 r2 r3 show ?thesis by (intro conjI)
qed

theorem embedding_source_exclusive_witness:
  "NewIndexer exEnv
     ((exIndexerConfig 5 okEmbedder)
        \<lparr>EmbeddingConfig := (EmbeddingConfig (exIndexerConfig 5 okEmbedder))\<lparr>UseBuiltin := True\<rparr>\<rparr>)
     = Error (ConfigError
        ''[MilvusDBIndexer] no need to provide Embedding when UseBuiltin embedding is true'')
   \<and> NewRetriever exEnv
     ((exRetrieverConfig [] None okEmbedder)
        \<lparr>rEmbeddingConfig :=
           (rEmbeddingConfig (exRetrieverConfig [] None okEmbedder))\<lparr>rEmbedding := None\<rparr>\<rparr>)
     = Error (ConfigError
        ''[VikingDBRetriever] need provide Embedding when UseBuiltin embedding is false'')
   \<and> NewIndexer exEnv (exIndexerConfig 5 okEmbedder) = Ok (exIndexer 5 okEmbedder)
   \<and> NewRetriever exEnv (exRetrieverConfig [] (Some 10) okEmbedder)
       = Ok (exRetriever (Some 10) okEmbedder)"
proof -
  have ok: "NewIndexer exEnv (exIndexerConfig 5 okEmbedder) = Ok (exIndexer 5 okEmbedder)"
    by (simp add: NewIndexer_def applyDefaults_def exIndexerConfig_def exIndexer_def exEnv_def
        defaultIdMaxLen_def)
  have rok: "NewRetriever exEnv (exRetrieverConfig [] (Some 10) okEmbedder)
       = Ok (exRetriever (Some 10) okEmbedder)"
    by (simp add: NewRetriever_def exRetrieverConfig_def exRetriever_def exEnv_def
        defaultPartition_def)
  show ?thesis
    using ok rok
      embedding_source_exclusive [of
        "(exIndexerConfig 5 okEmbedder)
           \<lparr>EmbeddingConfig := (EmbeddingConfig (exIndexerConfig 5 okEmbedder))\<lparr>UseBuiltin := True\<rparr>\<rparr>"
        exEnv
        "(exRetrieverConfig [] None okEmbedder)
           \<lparr>rEmbeddingConfig :=
              (rEmbeddingConfig (exRetrieverConfig [] None okEmbedder))\<lparr>rEmbedding := None\<rparr>\<rparr>"]
    by (simp add: exIndexerConfig_def exRetrieverConfig_def)
qed

section \<open>Storing\<close>

lemma Store_nonpositive:
  "AddBatchSize (config i) \<le> 0 \<Longrightarrow> Store env i docs opts calls = (Ok [], calls)"
  by (simp add: Store_def chunk_def Let_def)

text \<open>
  C10. The default batch size, 5, is applied at construction only when the configured
  \<^verbatim>\<open>AddBatchSize\<close> is exactly zero; with an indexer constructed from a negative
  \<^verbatim>\<open>AddBatchSize\<close>, \<^verbatim>\<open>Store\<close> returns the empty ID list and no error, and issues no upsert,
  whatever the documents.
\<close>

theorem negative_batch_size_noop:
  assumes "NewIndexer env cfg = Ok i"
  shows "AddBatchSize (config i) = (if AddBatchSize cfg = 0 then 5 else AddBatchSize cfg)
         \<and> (AddBatchSize cfg < 0 \<longrightarrow> Store env i docs opts calls = (Ok [], calls))"
proof -
  from NewIndexer_Ok_config [OF assms]
  have b: "AddBatchSize (config i) = (if AddBatchSize cfg = 0 then 5 else AddBatchSize cfg)"
    by (simp add: applyDefaults_AddBatchSize defaultAddBatchSize_def)
  then have "AddBatchSize cfg < 0 \<longrightarrow> AddBatchSize (config i) \<le> 0" by simp
  with b show ?thesis using Store_nonpositive [of i env docs opts calls] by blast
qed

theorem negative_batch_size_noop_witness:
  "NewIndexer exEnv (exIndexerConfig (- 3) okEmbedder) = Ok (exIndexer (- 3) okEmbedder)
   \<and> AddBatchSize (config (exIndexer (- 3) okEmbedder)) = - 3
   \<and> Store exEnv (exIndexer (- 3) okEmbedder) exDocs12 [] [] = (Ok [], [])
   \<and> NewIndexer exEnv (exIndexerConfig 0 okEmbedder) = Ok (exIndexer 5 okEmbedder)
   \<and> AddBatchSize (config (exIndexer 5 okEmbedder)) = 5"
proof -
  have neg: "NewIndexer exEnv (exIndexerConfig (- 3) okEmbedder) = Ok (exIndexer (- 3) okEmbedder)"
    by (simp add: NewIndexer_def applyDefaults_def exIndexerConfig_def exIndexer_def exEnv_def
        defaultIdMaxLen_def)
  have zero: "NewIndexer exEnv (exIndexerConfig 0 okEmbedder) = Ok (exIndexer 5 okEmbedder)"
    by (simp add: NewIndexer_def applyDefaults_def exIndexerConfig_def exIndexer_def exEnv_def
        defaultIdMaxLen_def defaultAddBatchSize_def)
  show ?thesis
    using neg zero negative_batch_size_noop [OF neg, of exDocs12 "[]" "[]"]
      negative_batch_size_noop [OF zero, of exDocs12 "[]" "[]"]
    by (simp add: exIndexerConfig_def)
qed

lemma Store_loop_append:
  "Store_loop env i options (pre @ rest) ids calls =
     (case Store_loop env i options pre ids calls of
        (Ok ids', mid) \<Rightarrow> Store_loop env i options rest ids' mid
      | (Error e, mid) \<Rightarrow> (Error e, mid)
      | (Panic p, mid) \<Rightarrow> (Panic p, mid))"
  by (induction pre arbitrary: ids calls) (auto split: result.splits option.splits)

lemma Store_loop_Ok:
  "Store_loop env i options bs ids calls = (Ok ids', calls') \<Longrightarrow>
     ids' = ids @ concat (map (map ID) bs)
     \<and> (\<exists>new. calls' = calls @ new
          \<and> list_all2 (\<lambda>b c. \<exists>columns. convertDocuments env i b options = Ok columns
                                 \<and> c = upsertCall i columns) bs new)"
proof (induction bs arbitrary: ids calls)
  case Nil
  then show ?case by simp
next
  case (Cons sub rest)
  from Cons.prems obtain columns where
    conv: "convertDocuments env i sub options = Ok columns"
    and ups: "Upsert env calls (upsertCall i columns) = None"
    and rec: "Store_loop env i options rest (ids @ map ID sub) (calls @ [upsertCall i columns])
                = (Ok ids', calls')"
    by (auto split: result.splits option.splits)
  from Cons.IH [OF rec] obtain new where
    ids': "ids' = (ids @ map ID sub) @ concat (map (map ID) rest)"
    and new: "calls' = (calls @ [upsertCall i columns]) @ new"
    and all: "list_all2 (\<lambda>b c. \<exists>columns. convertDocuments env i b options = Ok columns
                                 \<and> c = upsertCall i columns) rest new"
    by blast
  have "list_all2 (\<lambda>b c. \<exists>columns. convertDocuments env i b options = Ok columns
                                 \<and> c = upsertCall i columns) (sub # rest) (upsertCall i columns # new)"
    using conv all by simp
  with ids' new show ?case by auto
qed

lemma Store_loop_fails_at:
  assumes "Store_loop env i options pre ids0 calls = (Ok ids, mid)"
  shows "(convertDocuments env i sub options = Error cause \<longrightarrow>
            Store_loop env i options (pre @ sub # post) ids0 calls
              = (Error (ConvertDocumentsFailed cause), mid))
       \<and> (convertDocuments env i sub options = Ok columns
            \<and> Upsert env mid (upsertCall i columns) = Some m \<longrightarrow>
            Store_loop env i options (pre @ sub # post) ids0 calls
              = (Error (UpsertFailed (Upstream m)), mid @ [upsertCall i columns]))"
  using assms by (simp add: Store_loop_append)

lemma convertDocuments_mismatch:
  assumes "optEmbedding options = Some emb" and "emb (map Content sub) = Inr vectors"
    and "length vectors \<noteq> length sub"
  shows "convertDocuments env i sub options = Error (InvalidReturnLength 0 (length sub))"
  using assms by (simp add: convertDocuments_def customEmbedding_def)

lemma chunk_12_by_5:
  "length S = 12 \<Longrightarrow> chunk S 5 = [take 5 S, take 5 (drop 5 S), drop 10 S]"
  by (simp add: chunk_def chunk_loop.simps [of S] chunk_loop.simps [of "drop 5 S"]
      chunk_loop.simps [of "drop 10 S"] chunk_loop.simps [of "drop 5 (drop 5 S)"])

lemma chunk_concat: "0 < k \<Longrightarrow> concat (chunk S k) = S"
proof -
  assume pos: "0 < k"
  obtain rest cs where loop: "chunk_loop S k [] = (rest, cs)"
    by (cases "chunk_loop S k []") auto
  from chunk_loop_concat [OF loop] have "concat cs @ rest = S" by simp
  with pos loop show ?thesis by (auto simp: chunk_def)
qed

text \<open>
  C5, for a positive batch size. Whenever \<^verbatim>\<open>Store\<close> succeeds the IDs it
  returns are the IDs of the input documents in their order, and one upsert has been
  issued per batch; in particular 12 documents with batch size 5 make 3 batches of sizes
  5, 5 and 2, 3 upsert calls and 12 IDs.
\<close>

theorem Store_returns_ids_in_order:
  assumes pos: "0 < AddBatchSize (config i)"
    and ok: "Store env i docs opts calls = (Ok ids, calls')"
  shows "ids = map ID docs
         \<and> length calls' = length calls + length (chunk docs (AddBatchSize (config i)))
         \<and> (length docs = 12 \<and> AddBatchSize (config i) = 5 \<longrightarrow>
              map length (chunk docs 5) = [5, 5, 2]
              \<and> length calls' = length calls + 3 \<and> length ids = 12)"
proof -
  let ?k = "AddBatchSize (config i)"
  let ?options = "GetCommonOptions
      \<lparr>optSubIndexes = [], optEmbedding = Embedding (EmbeddingConfig (config i))\<rparr> opts"
  from ok have run: "Store_loop env i ?options (chunk docs ?k) [] calls = (Ok ids, calls')"
    by (simp add: Store_def Let_def)
  from Store_loop_Ok [OF run] obtain new where
    ids: "ids = concat (map (map ID) (chunk docs ?k))"
    and new: "calls' = calls @ new"
    and all: "list_all2 (\<lambda>b c. \<exists>columns. convertDocuments env i b ?options = Ok columns
                                 \<and> c = upsertCall i columns) (chunk docs ?k) new"
    by auto
  have "concat (map (map ID) (chunk docs ?k)) = map ID (concat (chunk docs ?k))"
    by (simp add: map_concat)
  with ids chunk_concat [OF pos, of docs] have a: "ids = map ID docs" by simp
  from new list_all2_lengthD [OF all]
  have b: "length calls' = length calls + length (chunk docs ?k)" by simp
  have c: "length docs = 12 \<and> ?k = 5 \<longrightarrow>
              map length (chunk docs 5) = [5, 5, 2]
              \<and> length calls' = length calls + 3 \<and> length ids = 12"
  proof
    assume h: "length docs = 12 \<and> ?k = 5"
    then have ch: "chunk docs 5 = [take 5 docs, take 5 (drop 5 docs), drop 10 docs]"
      by (simp add: chunk_12_by_5)
    from h have "map length (chunk docs 5) = [5, 5, 2]" unfolding ch by simp
    moreover from b h ch have "length calls' = length calls + 3" by simp
    moreover from a h have "length ids = 12" by simp
    ultimately show "map length (chunk docs 5) = [5, 5, 2]
              \<and> length calls' = length calls + 3 \<and> length ids = 12" by simp
  qed
  from a b c show ?thesis by simp
qed

lemma exDocs12_chunks:
  "chunk exDocs12 5 =
     [map exDoc [''d01'', ''d02'', ''d03'', ''d04'', ''d05''],
      map exDoc [''d06'', ''d07'', ''d08'', ''d09'', ''d10''],
      map exDoc [''d11'', ''d12'']]"
proof -
  have "length exDocs12 = 12" by (simp add: exDocs12_def)
  from chunk_12_by_5 [OF this] show ?thesis by (simp add: exDocs12_def)
qed

lemma exIndexer_fields:
  "AddBatchSize (config (exIndexer k emb)) = k"
  "Embedding (EmbeddingConfig (config (exIndexer k emb))) = Some emb"
  by (simp_all add: exIndexer_def exIndexerConfig_def)

lemma exStore_ok:
  "fst (Store exEnv (exIndexer 5 okEmbedder) exDocs12 [] []) =
     Ok [''d01'', ''d02'', ''d03'', ''d04'', ''d05'', ''d06'',
         ''d07'', ''d08'', ''d09'', ''d10'', ''d11'', ''d12'']"
  by (simp add: Store_def GetCommonOptions_def exIndexer_fields exDocs12_chunks
      convertDocuments_def customEmbedding_def okEmbedder_def exEnv_def exDoc_def)

theorem Store_returns_ids_in_order_witness:
  "fst (Store exEnv (exIndexer 5 okEmbedder) exDocs12 [] []) =
     Ok [''d01'', ''d02'', ''d03'', ''d04'', ''d05'', ''d06'',
         ''d07'', ''d08'', ''d09'', ''d10'', ''d11'', ''d12'']
   \<and> map ID exDocs12 = [''d01'', ''d02'', ''d03'', ''d04'', ''d05'', ''d06'',
         ''d07'', ''d08'', ''d09'', ''d10'', ''d11'', ''d12'']
   \<and> map length (chunk exDocs12 5) = [5, 5, 2]
   \<and> length (snd (Store exEnv (exIndexer 5 okEmbedder) exDocs12 [] [])) = 3"
proof -
  let ?run = "Store exEnv (exIndexer 5 okEmbedder) exDocs12 [] []"
  have pos: "0 < AddBatchSize (config (exIndexer 5 okEmbedder))"
    by (simp add: exIndexer_fields)
  have ok: "?run = (Ok [''d01'', ''d02'', ''d03'', ''d04'', ''d05'', ''d06'',
         ''d07'', ''d08'', ''d09'', ''d10'', ''d11'', ''d12''], snd ?run)"
    using exStore_ok by (simp add: prod_eq_iff)
  have len: "length exDocs12 = 12" by (simp add: exDocs12_def)
  from Store_returns_ids_in_order [OF pos ok] len exStore_ok
  show ?thesis by (simp add: exIndexer_fields)
qed

text \<open>
  With a negative batch size the IDs do not come back: an indexer constructed with batch
  size -1 stores one document with success and returns no ID.
\<close>

theorem Store_ids_counterexample:
  "NewIndexer exEnv (exIndexerConfig (- 1) okEmbedder) = Ok (exIndexer (- 1) okEmbedder)
   \<and> Store exEnv (exIndexer (- 1) okEmbedder) [exDoc ''d01''] [] [] = (Ok [], [])
   \<and> map ID [exDoc ''d01''] = [''d01'']"
  by (simp add: NewIndexer_def applyDefaults_def exIndexerConfig_def exIndexer_def exEnv_def
      defaultIdMaxLen_def Store_def chunk_def exDoc_def)

lemma Store_loop_history:
  assumes "Store_loop env i options pre ids0 calls = (Ok ids, mid)"
  shows "\<exists>new. mid = calls @ new \<and> length new = length pre"
proof -
  from Store_loop_Ok [OF assms] obtain new where
    "mid = calls @ new"
    "list_all2 (\<lambda>b c. \<exists>columns. convertDocuments env i b options = Ok columns
                                 \<and> c = upsertCall i columns) pre new"
    by blast
  then show ?thesis using list_all2_lengthD by fastforce
qed

lemma exConvert:
  "convertDocuments env (exIndexer k emb0) b
     (GetCommonOptions \<lparr>optSubIndexes = [], optEmbedding = Some okEmbedder\<rparr> []) =
   Ok \<lparr>ColumnsID = ColumnVarChar ''ID'' (map ID b),
       ColumnsContent = ColumnVarChar ''content'' (map Content b),
       ColumnsVector = ColumnFloatVector ''vector'' 2 (map (\<lambda>t. [float32 env 1, float32 env 2]) b)\<rparr>"
  by (simp add: convertDocuments_def customEmbedding_def GetCommonOptions_def okEmbedder_def
      getVectorDim_def exIndexer_def exIndexerConfig_def defaultFieldID_def
      defaultFieldContent_def defaultFieldVector_def comp_def)

text \<open>
  C6. When the batches before some batch have been written and that batch fails, in the
  conversion (the embedding) or in the upsert, \<^verbatim>\<open>Store\<close> stops there: it returns one
  error that wraps the cause with the step it came from and no IDs, and the upsert
  history is the one upsert of each earlier batch, followed by the failed upsert when
  it was the upsert that failed. Nothing is issued for later batches, nothing is
  repeated and nothing is undone.
\<close>

theorem Store_aborts_at_failing_batch:
  assumes batches: "chunk docs (AddBatchSize (config i)) = pre @ sub # post"
    and options: "options = GetCommonOptions
        \<lparr>optSubIndexes = [], optEmbedding = Embedding (EmbeddingConfig (config i))\<rparr> opts"
    and before: "Store_loop env i options pre [] calls = (Ok ids, mid)"
  shows "(convertDocuments env i sub options = Error cause \<longrightarrow>
            Store env i docs opts calls = (Error (ConvertDocumentsFailed cause), mid))
       \<and> (convertDocuments env i sub options = Ok columns
            \<and> Upsert env mid (upsertCall i columns) = Some m \<longrightarrow>
            Store env i docs opts calls
              = (Error (UpsertFailed (Upstream m)), mid @ [upsertCall i columns]))
       \<and> (\<exists>new. mid = calls @ new
            \<and> list_all2 (\<lambda>b c. \<exists>columns. convertDocuments env i b options = Ok columns
                                    \<and> c = upsertCall i columns) pre new)"
proof -
  have run: "Store env i docs opts calls = Store_loop env i options (pre @ sub # post) [] calls"
    using batches options by (simp add: Store_def Let_def)
  from Store_loop_fails_at [OF before, of sub cause post columns m]
  have "(convertDocuments env i sub options = Error cause \<longrightarrow>
            Store env i docs opts calls = (Error (ConvertDocumentsFailed cause), mid))
       \<and> (convertDocuments env i sub options = Ok columns
            \<and> Upsert env mid (upsertCall i columns) = Some m \<longrightarrow>
            Store env i docs opts calls
              = (Error (UpsertFailed (Upstream m)), mid @ [upsertCall i columns]))"
    unfolding run .
  moreover from Store_loop_Ok [OF before]
  have "\<exists>new. mid = calls @ new
            \<and> list_all2 (\<lambda>b c. \<exists>columns. convertDocuments env i b options = Ok columns
                                    \<and> c = upsertCall i columns) pre new"
    by simp
  ultimately show ?thesis by simp
qed

theorem Store_aborts_at_failing_batch_witness:
  "fst (Store exEnvSecondUpsertFails (exIndexer 5 okEmbedder) exDocs12 [] [])
     = Error (UpsertFailed (Upstream ''connection lost''))
   \<and> map (\<lambda>c. hd (upsertColumns c))
        (snd (Store exEnvSecondUpsertFails (exIndexer 5 okEmbedder) exDocs12 [] []))
     = [ColumnVarChar ''ID'' [''d01'', ''d02'', ''d03'', ''d04'', ''d05''],
        ColumnVarChar ''ID'' [''d06'', ''d07'', ''d08'', ''d09'', ''d10'']]
   \<and> Store exEnv (exIndexer 5 failingEmbedder) exDocs12 [] []
     = (Error (ConvertDocumentsFailed (Upstream ''embedding unavailable'')), [])"
proof -
  let ?E = exEnvSecondUpsertFails
  let ?i = "exIndexer 5 okEmbedder"
  let ?options = "GetCommonOptions
        \<lparr>optSubIndexes = [], optEmbedding = Embedding (EmbeddingConfig (config ?i))\<rparr> []"
  let ?b1 = "map exDoc [''d01'', ''d02'', ''d03'', ''d04'', ''d05'']"
  let ?b2 = "map exDoc [''d06'', ''d07'', ''d08'', ''d09'', ''d10'']"
  let ?b3 = "map exDoc [''d11'', ''d12'']"
  let ?cols = "\<lambda>b :: (real, string) Document list.
      \<lparr>ColumnsID = ColumnVarChar ''ID'' (map ID b),
       ColumnsContent = ColumnVarChar ''content'' (map Content b),
       ColumnsVector = ColumnFloatVector ''vector'' 2 (map (\<lambda>t. [float32 ?E 1, float32 ?E 2]) b)\<rparr>"
  have conv: "convertDocuments ?E ?i b ?options = Ok (?cols b)" for b :: "(real, string) Document list"
    using exConvert [of ?E 5 okEmbedder b] by (simp add: exIndexer_fields)
  have batches: "chunk exDocs12 (AddBatchSize (config ?i)) = [?b1] @ ?b2 # [?b3]"
    by (simp add: exIndexer_fields exDocs12_chunks)
  have before: "Store_loop ?E ?i ?options [?b1] [] []
                 = (Ok (map ID ?b1), [upsertCall ?i (?cols ?b1)])"
    by (simp add: conv) (simp add: exEnvSecondUpsertFails_def exEnv_def)
  have up: "Upsert ?E [upsertCall ?i (?cols ?b1)] (upsertCall ?i (?cols ?b2)) = Some ''connection lost''"
    by (simp add: exEnvSecondUpsertFails_def exEnv_def)
  from Store_aborts_at_failing_batch [OF batches refl before,
      where columns = "?cols ?b2" and m = "''connection lost''"]
    conv [of ?b2] up
  have s1: "Store ?E ?i exDocs12 [] []
       = (Error (UpsertFailed (Upstream ''connection lost'')),
          [upsertCall ?i (?cols ?b1)] @ [upsertCall ?i (?cols ?b2)])"
    by simp
  let ?j = "exIndexer 5 failingEmbedder"
  let ?joptions = "GetCommonOptions
        \<lparr>optSubIndexes = [], optEmbedding = Embedding (EmbeddingConfig (config ?j))\<rparr> []"
  have jbatches: "chunk exDocs12 (AddBatchSize (config ?j)) = [] @ ?b1 # [?b2, ?b3]"
    by (simp add: exIndexer_fields exDocs12_chunks)
  have jbefore: "Store_loop exEnv ?j ?joptions [] [] ([] :: real UpsertCall list) = (Ok [], [])"
    by simp
  have jconv: "convertDocuments exEnv ?j ?b1 ?joptions = Error (Upstream ''embedding unavailable'')"
    by (simp add: convertDocuments_def customEmbedding_def GetCommonOptions_def
        exIndexer_fields failingEmbedder_def)
  from Store_aborts_at_failing_batch [OF jbatches refl jbefore,
      where cause = "Upstream ''embedding unavailable''"] jconv
  have s2: "Store exEnv ?j exDocs12 [] []
     = (Error (ConvertDocumentsFailed (Upstream ''embedding unavailable'')), [])"
    by simp
  from s1 s2 show ?thesis by (simp add: upsertCall_def exDoc_def)
qed

lemma retrieverCustomEmbedding_mismatch:
  assumes "roptEmbedding options = Some emb" and "emb [query] = Inr vectors"
    and "length vectors \<noteq> 1"
  shows "retrieverCustomEmbedding env query options = Error (InvalidReturnLength (length vectors) 1)"
proof (cases vectors)
  case Nil
  with assms show ?thesis by (simp add: retrieverCustomEmbedding_def)
next
  case (Cons v rest)
  with assms obtain w more where "rest = w # more" by (cases rest) auto
  with Cons assms show ?thesis by (simp add: retrieverCustomEmbedding_def)
qed

text \<open>
  C4. In \<^verbatim>\<open>Store\<close>, when the batches before a batch of \<open>N\<close> documents have been written and
  the embedder returns a number of vectors other than \<open>N\<close> for it, the call fails with the
  invalid-return-length error (wrapped as a conversion failure) and the upsert history is
  what the earlier batches left: no upsert is issued for that batch. In \<^verbatim>\<open>Retrieve\<close>,
  when embedding the query returns a number of vectors other than 1, the call fails with
  the invalid-return-length error and no search is issued.
\<close>

theorem embedding_count_mismatch:
  "(chunk docs (AddBatchSize (config i)) = pre @ sub # post
      \<and> options = GetCommonOptions
            \<lparr>optSubIndexes = [], optEmbedding = Embedding (EmbeddingConfig (config i))\<rparr> opts
      \<and> Store_loop env i options pre [] calls = (Ok ids, mid)
      \<and> optEmbedding options = Some emb \<and> emb (map Content sub) = Inr vectors
      \<and> length vectors \<noteq> length sub
    \<longrightarrow> Store env i docs opts calls
          = (Error (ConvertDocumentsFailed (InvalidReturnLength 0 (length sub))), mid)
        \<and> (\<exists>new. mid = calls @ new \<and> length new = length pre))
   \<and> (roptEmbedding (resolveOptions r ropts) = Some remb \<and> remb [query] = Inr rvectors
      \<and> length rvectors \<noteq> 1
    \<longrightarrow> Retrieve env r query ropts scalls
          = (Error (InvalidReturnLength (length rvectors) 1), scalls))"
proof -
  have store: "Store env i docs opts calls
          = (Error (ConvertDocumentsFailed (InvalidReturnLength 0 (length sub))), mid)
        \<and> (\<exists>new. mid = calls @ new \<and> length new = length pre)"
    if batches: "chunk docs (AddBatchSize (config i)) = pre @ sub # post"
      and options: "options = GetCommonOptions
            \<lparr>optSubIndexes = [], optEmbedding = Embedding (EmbeddingConfig (config i))\<rparr> opts"
      and before: "Store_loop env i options pre [] calls = (Ok ids, mid)"
      and emb: "optEmbedding options = Some emb" "emb (map Content sub) = Inr vectors"
        "length vectors \<noteq> length sub"
  proof -
    from emb have conv: "convertDocuments env i sub options
        = Error (InvalidReturnLength 0 (length sub))"
      by (rule convertDocuments_mismatch)
    from batches options
    have run: "Store env i docs opts calls = Store_loop env i options (pre @ sub # post) [] calls"
      by (simp add: Store_def Let_def)
    from Store_loop_fails_at [OF before, of sub "InvalidReturnLength 0 (length sub)" post] conv
    have "Store env i docs opts calls
            = (Error (ConvertDocumentsFailed (InvalidReturnLength 0 (length sub))), mid)"
      unfolding run by simp
    with Store_loop_history [OF before] show ?thesis by simp
  qed
  have retrieve: "Retrieve env r query ropts scalls
          = (Error (InvalidReturnLength (length rvectors) 1), scalls)"
    if remb: "roptEmbedding (resolveOptions r ropts) = Some remb" "remb [query] = Inr rvectors"
      "length rvectors \<noteq> 1"
  proof -
    from remb have "retrieverCustomEmbedding env query (resolveOptions r ropts)
        = Error (InvalidReturnLength (length rvectors) 1)"
      by (rule retrieverCustomEmbedding_mismatch)
    then show ?thesis by (simp add: Retrieve_def Let_def)
  qed
  from store retrieve show ?thesis by blast
qed

theorem embedding_count_mismatch_witness:
  "fst (Store exEnv (exIndexer 5 pairShortEmbedder) exDocs12 [] [])
     = Error (ConvertDocumentsFailed (InvalidReturnLength 0 2))
   \<and> map (\<lambda>c. hd (upsertColumns c))
        (snd (Store exEnv (exIndexer 5 pairShortEmbedder) exDocs12 [] []))
     = [ColumnVarChar ''ID'' [''d01'', ''d02'', ''d03'', ''d04'', ''d05''],
        ColumnVarChar ''ID'' [''d06'', ''d07'', ''d08'', ''d09'', ''d10'']]
   \<and> Retrieve exEnv (exRetriever (Some 10) shortEmbedder) ''hello'' [] []
     = (Error (InvalidReturnLength 0 1), [])"
proof -
  let ?i = "exIndexer 5 pairShortEmbedder"
  let ?options = "GetCommonOptions
        \<lparr>optSubIndexes = [], optEmbedding = Embedding (EmbeddingConfig (config ?i))\<rparr> []"
  let ?b1 = "map exDoc [''d01'', ''d02'', ''d03'', ''d04'', ''d05'']"
  let ?b2 = "map exDoc [''d06'', ''d07'', ''d08'', ''d09'', ''d10'']"
  let ?b3 = "map exDoc [''d11'', ''d12'']"
  let ?mid = "snd (Store_loop exEnv ?i ?options [?b1, ?b2] [] [])"
  have batches: "chunk exDocs12 (AddBatchSize (config ?i)) = [?b1, ?b2] @ ?b3 # []"
    by (simp add: exIndexer_fields exDocs12_chunks)
  have run: "Store_loop exEnv ?i ?options [?b1, ?b2] [] []
     = (Ok [''d01'', ''d02'', ''d03'', ''d04'', ''d05'', ''d06'', ''d07'', ''d08'', ''d09'', ''d10''],
        [upsertCall ?i
          \<lparr>ColumnsID = ColumnVarChar ''ID'' (map ID ?b1),
           ColumnsContent = ColumnVarChar ''content'' (map Content ?b1),
           ColumnsVector = ColumnFloatVector ''vector'' 2 (map (\<lambda>t. [1, 2]) ?b1)\<rparr>,
         upsertCall ?i
          \<lparr>ColumnsID = ColumnVarChar ''ID'' (map ID ?b2),
           ColumnsContent = ColumnVarChar ''content'' (map Content ?b2),
           ColumnsVector = ColumnFloatVector ''vector'' 2 (map (\<lambda>t. [1, 2]) ?b2)\<rparr>])"
    by (simp add: convertDocuments_def customEmbedding_def GetCommonOptions_def
        pairShortEmbedder_def getVectorDim_def exIndexer_def exIndexerConfig_def
        defaultFieldID_def defaultFieldContent_def defaultFieldVector_def exEnv_def exDoc_def)
  have emb: "optEmbedding ?options = Some pairShortEmbedder"
    by (simp add: GetCommonOptions_def exIndexer_fields)
  have vs: "pairShortEmbedder (map Content ?b3) = Inr [[1, 2]]"
    by (simp add: pairShortEmbedder_def)
  have ne: "length [[1, 2 :: real]] \<noteq> length ?b3" by simp
  have remb: "roptEmbedding (resolveOptions (exRetriever (Some 10) shortEmbedder) [])
      = Some shortEmbedder"
    by (simp add: resolveOptions_def GetCommonRetrieverOptions_def exRetriever_def
        exRetrieverConfig_def)
  have rvs: "shortEmbedder [''hello''] = Inr []" by (simp add: shortEmbedder_def)
  from embedding_count_mismatch [where docs = exDocs12 and i = ?i and pre = "[?b1, ?b2]"
      and sub = ?b3 and post = "[]" and options = ?options and opts = "[]" and env = exEnv
      and calls = "[]" and emb = pairShortEmbedder and vectors = "[[1, 2]]"
      and r = "exRetriever (Some 10) shortEmbedder" and ropts = "[]" and remb = shortEmbedder
      and query = "''hello''" and rvectors = "[]" and scalls = "[]"]
    batches run emb vs ne remb rvs
  show ?thesis by (simp add: upsertCall_def exDoc_def)
qed

section \<open>Retrieving\<close>

lemma selectColumns_without_id:
  "\<forall>f \<in> set fs. Name f = defaultReturnFieldID \<longrightarrow> \<not> isColumnVarChar f
   \<Longrightarrow> fst (selectColumns fs idColumn contentColumn) = idColumn"
proof (induction fs arbitrary: idColumn contentColumn)
  case Nil
  then show ?case by simp
next
  case (Cons f fs)
  then show ?case by (cases f) auto
qed

lemma selectColumns_without_content:
  "\<forall>f \<in> set fs. Name f = defaultReturnFieldContent \<longrightarrow> \<not> isColumnVarChar f
   \<Longrightarrow> snd (selectColumns fs idColumn contentColumn) = contentColumn"
proof (induction fs arbitrary: idColumn contentColumn)
  case Nil
  then show ?case by simp
next
  case (Cons f fs)
  then show ?case by (cases f) auto
qed

lemma selectColumns_members:
  "selectColumns fs idColumn contentColumn = (a, b) \<Longrightarrow>
     (a = idColumn \<or> (\<exists>ids. a = Some ids \<and> ColumnVarChar defaultReturnFieldID ids \<in> set fs))
     \<and> (b = contentColumn
         \<or> (\<exists>cs. b = Some cs \<and> ColumnVarChar defaultReturnFieldContent cs \<in> set fs))"
proof (induction fs arbitrary: idColumn contentColumn)
  case Nil
  then show ?case by simp
next
  case (Cons f fs)
  show ?case
  proof (cases f)
    case (ColumnVarChar n c)
    show ?thesis
    proof (cases "n = defaultReturnFieldID")
      case True
      with ColumnVarChar Cons.prems
      have "selectColumns fs (Some c) contentColumn = (a, b)" by simp
      from Cons.IH [OF this] ColumnVarChar True show ?thesis by auto
    next
      case False
      show ?thesis
      proof (cases "n = defaultReturnFieldContent")
        case True
        with False ColumnVarChar Cons.prems
        have "selectColumns fs idColumn (Some c) = (a, b)" by simp
        from Cons.IH [OF this] ColumnVarChar True show ?thesis by auto
      next
        case nc: False
        with False ColumnVarChar Cons.prems
        have "selectColumns fs idColumn contentColumn = (a, b)" by simp
        from Cons.IH [OF this] show ?thesis by auto
      qed
    qed
  next
    case (ColumnInt64 n c)
    with Cons.prems have "selectColumns fs idColumn contentColumn = (a, b)"
      by (simp split: if_splits)
    from Cons.IH [OF this] show ?thesis by auto
  next
    case (ColumnFloatVector n w c)
    with Cons.prems have "selectColumns fs idColumn contentColumn = (a, b)"
      by (simp split: if_splits)
    from Cons.IH [OF this] show ?thesis by auto
  qed
qed

lemma selectColumns_firstRow:
  "selectColumns (map firstRowOfColumn fs) (map_option (take 1) idColumn)
       (map_option (take 1) contentColumn)
   = (map_option (take 1) (fst (selectColumns fs idColumn contentColumn)),
      map_option (take 1) (snd (selectColumns fs idColumn contentColumn)))"
proof (induction fs arbitrary: idColumn contentColumn)
  case Nil
  then show ?case by simp
next
  case (Cons f fs)
  show ?case
  proof (cases f)
    case (ColumnVarChar n c)
    from Cons.IH [of "Some c" contentColumn] Cons.IH [of idColumn "Some c"]
      Cons.IH [of idColumn contentColumn] ColumnVarChar
    show ?thesis by simp
  next
    case (ColumnInt64 n c)
    with Cons.IH [of idColumn contentColumn] show ?thesis by simp
  next
    case (ColumnFloatVector n w c)
    with Cons.IH [of idColumn contentColumn] show ?thesis by simp
  qed
qed

lemma ValueByIdx_first: "ValueByIdx (take (Suc 0) vals) 0 = ValueByIdx vals 0"
  by (cases vals) (simp_all add: ValueByIdx_def)

lemma data2Document_firstRow: "data2Document env (firstRow data) = data2Document env data"
proof -
  obtain a b where sel: "selectColumns (Fields data) None None = (a, b)"
    by (cases "selectColumns (Fields data) None None") auto
  with selectColumns_firstRow [of "Fields data" None None]
  have sel1: "selectColumns (map firstRowOfColumn (Fields data)) None None
      = (map_option (take 1) a, map_option (take 1) b)"
    by simp
  show ?thesis
  proof (cases a)
    case None
    with sel sel1 show ?thesis by (simp add: data2Document_def firstRow_def)
  next
    case ida: (Some ids)
    show ?thesis
    proof (cases b)
      case None
      with ida sel sel1 show ?thesis by (simp add: data2Document_def firstRow_def)
    next
      case (Some cs)
      with ida sel sel1 show ?thesis
        by (cases "Scores data")
           (simp_all add: data2Document_def firstRow_def ValueByIdx_first
              cong: result.case_cong)
    qed
  qed
qed

lemma ValueByIdx_0:
  "ValueByIdx vals 0 = (case vals of [] \<Rightarrow> Error IndexOutOfRange | v # others \<Rightarrow> Ok v)"
  by (cases vals) (simp_all add: ValueByIdx_def)

lemma data2Document_Ok_shape:
  assumes "data2Document env data = Ok doc"
  shows "\<exists>idv ids cv contents score scores.
           selectColumns (Fields data) None None = (Some (idv # ids), Some (cv # contents))
         \<and> ResultCount data \<noteq> 0
         \<and> Scores data = score # scores
         \<and> doc = \<lparr>ID = idv, Content = cv,
                   MetaData = [docMetaDataKeyScore \<mapsto> Float64 (float64 env score)]\<rparr>"
  using assms
  by (auto simp: data2Document_def ValueByIdx_0 WithScore_def
      split: prod.splits option.splits if_splits list.splits)

lemma data2Document_Ok:
  assumes "data2Document env data = Ok doc"
  shows "\<exists>ids contents score scores.
           ColumnVarChar defaultReturnFieldID (ID doc # ids) \<in> set (Fields data)
         \<and> ColumnVarChar defaultReturnFieldContent (Content doc # contents) \<in> set (Fields data)
         \<and> ResultCount data \<noteq> 0
         \<and> Scores data = score # scores
         \<and> MetaData doc = [docMetaDataKeyScore \<mapsto> Float64 (float64 env score)]"
proof -
  from data2Document_Ok_shape [OF assms] obtain idv ids cv contents score scores where
    sel: "selectColumns (Fields data) None None = (Some (idv # ids), Some (cv # contents))"
    and sc: "ResultCount data \<noteq> 0" "Scores data = score # scores"
    and doc: "doc = \<lparr>ID = idv, Content = cv,
                   MetaData = [docMetaDataKeyScore \<mapsto> Float64 (float64 env score)]\<rparr>"
    by blast
  from selectColumns_members [OF sel]
  have "ColumnVarChar defaultReturnFieldID (idv # ids) \<in> set (Fields data)"
    "ColumnVarChar defaultReturnFieldContent (cv # contents) \<in> set (Fields data)"
    by auto
  with sc doc show ?thesis by auto
qed

lemma data2Document_bad:
  assumes "(\<forall>f \<in> set (Fields data). Name f = defaultReturnFieldID \<longrightarrow> \<not> isColumnVarChar f)
         \<or> (\<forall>f \<in> set (Fields data). Name f = defaultReturnFieldContent \<longrightarrow> \<not> isColumnVarChar f)
         \<or> ResultCount data = 0"
  shows "data2Document env data = Error ResultFieldNotMatch"
proof -
  obtain a b where sel: "selectColumns (Fields data) None None = (a, b)"
    by (cases "selectColumns (Fields data) None None") auto
  from assms consider
      (noid) "\<forall>f \<in> set (Fields data). Name f = defaultReturnFieldID \<longrightarrow> \<not> isColumnVarChar f"
    | (nocontent) "\<forall>f \<in> set (Fields data). Name f = defaultReturnFieldContent \<longrightarrow> \<not> isColumnVarChar f"
    | (norows) "ResultCount data = 0"
    by blast
  then show ?thesis
  proof cases
    case noid
    from selectColumns_without_id [OF noid, of None None] sel have "a = None" by simp
    with sel show ?thesis by (simp add: data2Document_def)
  next
    case nocontent
    from selectColumns_without_content [OF nocontent, of None None] sel have "b = None" by simp
    with sel show ?thesis by (cases a) (simp_all add: data2Document_def)
  next
    case norows
    with sel show ?thesis by (cases a; cases b) (simp_all add: data2Document_def)
  qed
qed

lemma Retrieve_loop_Ok:
  "Retrieve_loop env dsl result acc = Ok docs \<Longrightarrow>
     \<exists>new. docs = acc @ new
        \<and> list_all2 (\<lambda>data doc. \<exists>d. data2Document env data = Ok d \<and> doc = WithDSLInfo d dsl)
             result new"
proof (induction result arbitrary: acc)
  case Nil
  then show ?case by simp
next
  case (Cons data rest)
  from Cons.prems obtain d where
    d: "data2Document env data = Ok d"
    and rec: "Retrieve_loop env dsl rest (acc @ [WithDSLInfo d dsl]) = Ok docs"
    by (auto split: result.splits)
  from Cons.IH [OF rec] obtain new where
    "docs = (acc @ [WithDSLInfo d dsl]) @ new"
    "list_all2 (\<lambda>data doc. \<exists>d. data2Document env data = Ok d \<and> doc = WithDSLInfo d dsl) rest new"
    by blast
  with d have "docs = acc @ (WithDSLInfo d dsl # new)
      \<and> list_all2 (\<lambda>data doc. \<exists>d. data2Document env data = Ok d \<and> doc = WithDSLInfo d dsl)
           (data # rest) (WithDSLInfo d dsl # new)"
    by simp
  then show ?case by blast
qed

lemma Retrieve_loop_firstRow:
  "Retrieve_loop env dsl (map firstRow result) acc = Retrieve_loop env dsl result acc"
  by (induction result arbitrary: acc) (simp_all add: data2Document_firstRow cong: result.case_cong)

lemma Retrieve_loop_bad:
  fixes env :: "('f, 'g) Env" and dsl :: 'd
  assumes "data \<in> set result"
    and "(data2Document env data :: ('f, 'd) Document result) = Error e"
  shows "Retrieve_loop env dsl result acc \<noteq> Ok docs"
proof
  assume "Retrieve_loop env dsl result acc = Ok docs"
  from Retrieve_loop_Ok [OF this] obtain new where
    all: "list_all2 (\<lambda>data doc. \<exists>d. data2Document env data = Ok d \<and> doc = WithDSLInfo d dsl)
           result new"
    by blast
  from assms(1) obtain n where n: "n < length result" "result ! n = data"
    by (auto simp: in_set_conv_nth)
  from list_all2_nthD [OF all n(1)] n(2)
  have "\<exists>d :: ('f, 'd) Document. data2Document env data = Ok d"
    by auto
  with assms(2) show False by simp
qed

lemma Retrieve_Ok:
  assumes "Retrieve env r query opts calls = (Ok docs, calls')"
  shows "\<exists>dense k result.
           retrieverCustomEmbedding env query (resolveOptions r opts) = Ok dense
         \<and> TopK (rconfig r) = Some k
         \<and> Search env calls (searchCall r dense k) = Inr result
         \<and> calls' = calls @ [searchCall r dense k]
         \<and> Retrieve_loop env (roptDSLInfo (resolveOptions r opts)) result [] = Ok docs"
  using assms
  by (auto simp: Retrieve_def Let_def split: result.splits option.splits sum.splits)

text \<open>
  C7. When a result set has no var-char column named as the ID field, or none named as
  the content field (the field is absent, or present with another column type), or when
  its row count is zero, decoding it fails with an error; and when the search that
  \<^verbatim>\<open>Retrieve\<close> issues returns such a result set, \<^verbatim>\<open>Retrieve\<close> returns no documents.
\<close>

theorem decode_requires_fields:
  fixes env :: "('f, 'g) Env" and r :: "('f, 'd) Retriever"
  assumes bad:
    "(\<forall>f \<in> set (Fields data). Name f = defaultReturnFieldID \<longrightarrow> \<not> isColumnVarChar f)
     \<or> (\<forall>f \<in> set (Fields data). Name f = defaultReturnFieldContent \<longrightarrow> \<not> isColumnVarChar f)
     \<or> ResultCount data = 0"
  shows "(data2Document env data :: ('f, 'd) Document result) = Error ResultFieldNotMatch
         \<and> (retrieverCustomEmbedding env query (resolveOptions r opts) = Ok dense
              \<and> TopK (rconfig r) = Some k
              \<and> Search env calls (searchCall r dense k) = Inr result
              \<and> data \<in> set result
            \<longrightarrow> (\<forall>docs. fst (Retrieve env r query opts calls) \<noteq> Ok docs))"
proof -
  have dec: "(data2Document env data :: ('f, 'd) Document result) = Error ResultFieldNotMatch"
    using bad by (rule data2Document_bad)
  have "\<forall>docs. fst (Retrieve env r query opts calls) \<noteq> Ok docs"
    if emb: "retrieverCustomEmbedding env query (resolveOptions r opts) = Ok dense"
      and k: "TopK (rconfig r) = Some k"
      and search: "Search env calls (searchCall r dense k) = Inr result"
      and mem: "data \<in> set result"
  proof -
    have "fst (Retrieve env r query opts calls)
        = Retrieve_loop env (roptDSLInfo (resolveOptions r opts)) result []"
      using emb k search by (simp add: Retrieve_def Let_def)
    with Retrieve_loop_bad [OF mem dec] show ?thesis by simp
  qed
  with dec show ?thesis by blast
qed

theorem decode_requires_fields_witness:
  "(data2Document exEnvNoContent exResultNoContent :: (real, string) Document result)
     = Error ResultFieldNotMatch
   \<and> fst (Retrieve exEnvNoContent (exRetriever (Some 10) okEmbedder) ''hello'' [] [])
     = Error ResultFieldNotMatch"
proof -
  let ?r = "exRetriever (Some 10) okEmbedder"
  have bad: "(\<forall>f \<in> set (Fields exResultNoContent).
                 Name f = defaultReturnFieldID \<longrightarrow> \<not> isColumnVarChar f)
     \<or> (\<forall>f \<in> set (Fields exResultNoContent).
                 Name f = defaultReturnFieldContent \<longrightarrow> \<not> isColumnVarChar f)
     \<or> ResultCount exResultNoContent = 0"
    by (simp add: exResultNoContent_def defaultReturnFieldContent_def)
  have emb: "retrieverCustomEmbedding exEnvNoContent ''hello'' (resolveOptions ?r []) = Ok [1, 2]"
    by (simp add: retrieverCustomEmbedding_def resolveOptions_def GetCommonRetrieverOptions_def
        exRetriever_def exRetrieverConfig_def okEmbedder_def exEnvNoContent_def exEnv_def)
  have k: "TopK (rconfig ?r) = Some 10"
    by (simp add: exRetriever_def exRetrieverConfig_def)
  have search: "Search exEnvNoContent [] (searchCall ?r [1, 2] 10) = Inr [exResultNoContent]"
    by (simp add: exEnvNoContent_def exEnv_def)
  have run: "fst (Retrieve exEnvNoContent ?r ''hello'' [] [])
      = Retrieve_loop exEnvNoContent (roptDSLInfo (resolveOptions ?r [])) [exResultNoContent] []"
    using emb k search by (simp add: Retrieve_def Let_def)
  from decode_requires_fields [OF bad, where env = exEnvNoContent and r = ?r and query = "''hello''"
      and opts = "[]" and dense = "[1, 2]" and k = 10 and calls = "[]"
      and result = "[exResultNoContent]"] run
  show ?thesis by simp
qed

lemma selectColumns_picks_id:
  "distinct (map Name fs) \<Longrightarrow> ColumnVarChar defaultReturnFieldID ids \<in> set fs
   \<Longrightarrow> fst (selectColumns fs idColumn contentColumn) = Some ids"
proof (induction fs arbitrary: idColumn contentColumn)
  case Nil
  then show ?case by simp
next
  case (Cons f fs)
  from Cons.prems(1) have dist: "distinct (map Name fs)" and fresh: "Name f \<notin> Name ` set fs"
    by simp_all
  show ?case
  proof (cases "f = ColumnVarChar defaultReturnFieldID ids")
    case True
    with fresh have "\<forall>g \<in> set fs. Name g = defaultReturnFieldID \<longrightarrow> \<not> isColumnVarChar g"
      by force
    from selectColumns_without_id [OF this, of "Some ids" contentColumn] True
    show ?thesis by simp
  next
    case False
    with Cons.prems(2) have mem: "ColumnVarChar defaultReturnFieldID ids \<in> set fs" by simp
    then have "defaultReturnFieldID \<in> Name ` set fs" by force
    with fresh have other: "Name f \<noteq> defaultReturnFieldID" by auto
    from Cons.IH [OF dist mem] other show ?thesis by (cases f) auto
  qed
qed

lemma selectColumns_picks_content:
  "distinct (map Name fs) \<Longrightarrow> ColumnVarChar defaultReturnFieldContent cs \<in> set fs
   \<Longrightarrow> snd (selectColumns fs idColumn contentColumn) = Some cs"
proof (induction fs arbitrary: idColumn contentColumn)
  case Nil
  then show ?case by simp
next
  case (Cons f fs)
  from Cons.prems(1) have dist: "distinct (map Name fs)" and fresh: "Name f \<notin> Name ` set fs"
    by simp_all
  have names: "defaultReturnFieldContent \<noteq> defaultReturnFieldID"
    by (simp add: defaultReturnFieldContent_def defaultReturnFieldID_def)
  show ?case
  proof (cases "f = ColumnVarChar defaultReturnFieldContent cs")
    case True
    with fresh have "\<forall>g \<in> set fs. Name g = defaultReturnFieldContent \<longrightarrow> \<not> isColumnVarChar g"
      by force
    from selectColumns_without_content [OF this, of idColumn "Some cs"] True names
    show ?thesis by simp
  next
    case False
    with Cons.prems(2) have mem: "ColumnVarChar defaultReturnFieldContent cs \<in> set fs" by simp
    then have "defaultReturnFieldContent \<in> Name ` set fs" by force
    with fresh have other: "Name f \<noteq> defaultReturnFieldContent" by auto
    from Cons.IH [OF dist mem] other show ?thesis by (cases f) auto
  qed
qed

lemma data2Document_wellformed:
  assumes "distinct (map Name (Fields data))"
    and "ColumnVarChar defaultReturnFieldID (docID # ids) \<in> set (Fields data)"
    and "ColumnVarChar defaultReturnFieldContent (content # contents) \<in> set (Fields data)"
    and "ResultCount data \<noteq> 0"
    and "Scores data = score # scores"
  shows "data2Document env data
     = Ok \<lparr>ID = docID, Content = content,
           MetaData = [docMetaDataKeyScore \<mapsto> Float64 (float64 env score)]\<rparr>"
proof -
  from selectColumns_picks_id [OF assms(1,2), of None None]
    selectColumns_picks_content [OF assms(1,3), of None None]
  have "selectColumns (Fields data) None None = (Some (docID # ids), Some (content # contents))"
    by (simp add: prod_eq_iff)
  with assms(4,5) show ?thesis
    by (simp add: data2Document_def ValueByIdx_0 WithScore_def)
qed

lemma Retrieve_loop_total:
  fixes env :: "('f, 'g) Env" and dsl :: 'd
  assumes "\<forall>data \<in> set result. \<exists>d :: ('f, 'd) Document. data2Document env data = Ok d"
  shows "\<exists>docs. Retrieve_loop env dsl result acc = Ok docs"
  using assms
proof (induction result arbitrary: acc)
  case Nil
  then show ?case by simp
next
  case (Cons data rest)
  from Cons.prems obtain d :: "('f, 'd) Document" where d: "data2Document env data = Ok d"
    by auto
  from Cons.prems have "\<forall>data \<in> set rest. \<exists>d :: ('f, 'd) Document. data2Document env data = Ok d"
    by simp
  from Cons.IH [OF this, of "acc @ [WithDSLInfo d dsl]"] d show ?case by simp
qed

lemma Retrieve_loop_top_rows:
  assumes loop: "Retrieve_loop env dsl result [] = Ok docs"
  shows "list_all2 (\<lambda>data doc. \<exists>ids contents score scores.
               ColumnVarChar defaultReturnFieldID (ID doc # ids) \<in> set (Fields data)
             \<and> ColumnVarChar defaultReturnFieldContent (Content doc # contents) \<in> set (Fields data)
             \<and> ResultCount data \<noteq> 0
             \<and> Scores data = score # scores
             \<and> MetaData doc =
                 [docMetaDataKeyScore \<mapsto> Float64 (float64 env score),
                  docMetaDataKeyDSL \<mapsto> DSLInfo dsl])
             result docs"
proof -
  from Retrieve_loop_Ok [OF loop]
  have all: "list_all2 (\<lambda>data doc. \<exists>d. data2Document env data = Ok d \<and> doc = WithDSLInfo d dsl)
               result docs"
    by simp
  have step: "\<exists>ids contents score scores.
               ColumnVarChar defaultReturnFieldID (ID doc # ids) \<in> set (Fields data)
             \<and> ColumnVarChar defaultReturnFieldContent (Content doc # contents) \<in> set (Fields data)
             \<and> ResultCount data \<noteq> 0
             \<and> Scores data = score # scores
             \<and> MetaData doc =
                 [docMetaDataKeyScore \<mapsto> Float64 (float64 env score),
                  docMetaDataKeyDSL \<mapsto> DSLInfo dsl]"
    if "\<exists>d. data2Document env data = Ok d \<and> doc = WithDSLInfo d dsl" for data doc
  proof -
    from that obtain d where d: "data2Document env data = Ok d" "doc = WithDSLInfo d dsl"
      by blast
    from data2Document_Ok [OF d(1)] obtain ids contents score scores where
      "ColumnVarChar defaultReturnFieldID (ID d # ids) \<in> set (Fields data)"
      "ColumnVarChar defaultReturnFieldContent (Content d # contents) \<in> set (Fields data)"
      "ResultCount data \<noteq> 0" "Scores data = score # scores"
      "MetaData d = [docMetaDataKeyScore \<mapsto> Float64 (float64 env score)]"
      by blast
    with d(2) show ?thesis by (auto simp: WithDSLInfo_def)
  qed
  from list_all2_mono [OF all step] show ?thesis by simp
qed

text \<open>
  C8. A result set whose fields have distinct names, with a non-empty var-char column
  under the ID name and one under the content name, a row count other than zero and at
  least one score, is decoded into the document of its first row: the heads of the two
  columns and the first score. When the search answers with such result sets,
  \<^verbatim>\<open>Retrieve\<close> succeeds with one document per result set. Whenever \<^verbatim>\<open>Retrieve\<close> succeeds,
  each document has the head of an ID column and of a content column of its result set,
  the first score and the resolved filter expression in its metadata, and decoding the
  result sets cut down to their first rows gives the same documents: no later row is
  read.
\<close>

theorem decode_top_row_only:
  fixes env :: "('f, 'g) Env" and r :: "('f, 'd) Retriever"
  shows
   "(distinct (map Name (Fields data))
       \<and> ColumnVarChar defaultReturnFieldID (docID # ids) \<in> set (Fields data)
       \<and> ColumnVarChar defaultReturnFieldContent (content # contents) \<in> set (Fields data)
       \<and> ResultCount data \<noteq> 0
       \<and> Scores data = score # scores
     \<longrightarrow> (data2Document env data :: ('f, 'd) Document result)
          = Ok \<lparr>ID = docID, Content = content,
                MetaData = [docMetaDataKeyScore \<mapsto> Float64 (float64 env score)]\<rparr>
        \<and> (data2Document env (firstRow data) :: ('f, 'd) Document result)
          = data2Document env data)
    \<and> (retrieverCustomEmbedding env query (resolveOptions r opts) = Ok dense
       \<and> TopK (rconfig r) = Some k
       \<and> Search env calls (searchCall r dense k) = Inr result
       \<and> (\<forall>res \<in> set result.
             distinct (map Name (Fields res))
           \<and> (\<exists>i is. ColumnVarChar defaultReturnFieldID (i # is) \<in> set (Fields res))
           \<and> (\<exists>c cs. ColumnVarChar defaultReturnFieldContent (c # cs) \<in> set (Fields res))
           \<and> ResultCount res \<noteq> 0
           \<and> Scores res \<noteq> [])
     \<longrightarrow> (\<exists>docs. Retrieve env r query opts calls = (Ok docs, calls @ [searchCall r dense k])
            \<and> list_all2 (\<lambda>res doc. \<exists>is cs score scores.
                  ColumnVarChar defaultReturnFieldID (ID doc # is) \<in> set (Fields res)
                \<and> ColumnVarChar defaultReturnFieldContent (Content doc # cs) \<in> set (Fields res)
                \<and> ResultCount res \<noteq> 0
                \<and> Scores res = score # scores
                \<and> MetaData doc =
                    [docMetaDataKeyScore \<mapsto> Float64 (float64 env score),
                     docMetaDataKeyDSL \<mapsto> DSLInfo (roptDSLInfo (resolveOptions r opts))])
                result docs))
    \<and> (Retrieve env r query opts calls = (Ok found, calls')
     \<longrightarrow> (\<exists>dense' k' result'.
           calls' = calls @ [searchCall r dense' k']
         \<and> Search env calls (searchCall r dense' k') = Inr result'
         \<and> list_all2 (\<lambda>res doc. \<exists>is cs score scores.
               ColumnVarChar defaultReturnFieldID (ID doc # is) \<in> set (Fields res)
             \<and> ColumnVarChar defaultReturnFieldContent (Content doc # cs) \<in> set (Fields res)
             \<and> ResultCount res \<noteq> 0
             \<and> Scores res = score # scores
             \<and> MetaData doc =
                 [docMetaDataKeyScore \<mapsto> Float64 (float64 env score),
                  docMetaDataKeyDSL \<mapsto> DSLInfo (roptDSLInfo (resolveOptions r opts))])
             result' found
         \<and> Retrieve_loop env (roptDSLInfo (resolveOptions r opts)) (map firstRow result') []
             = Ok found))"
proof -
  let ?dsl = "roptDSLInfo (resolveOptions r opts)"
  have one: "(data2Document env data :: ('f, 'd) Document result)
          = Ok \<lparr>ID = docID, Content = content,
                MetaData = [docMetaDataKeyScore \<mapsto> Float64 (float64 env score)]\<rparr>
        \<and> (data2Document env (firstRow data) :: ('f, 'd) Document result)
          = data2Document env data"
    if h: "distinct (map Name (Fields data))
       \<and> ColumnVarChar defaultReturnFieldID (docID # ids) \<in> set (Fields data)
       \<and> ColumnVarChar defaultReturnFieldContent (content # contents) \<in> set (Fields data)
       \<and> ResultCount data \<noteq> 0
       \<and> Scores data = score # scores"
  proof -
    from h have "distinct (map Name (Fields data))"
      "ColumnVarChar defaultReturnFieldID (docID # ids) \<in> set (Fields data)"
      "ColumnVarChar defaultReturnFieldContent (content # contents) \<in> set (Fields data)"
      "ResultCount data \<noteq> 0" "Scores data = score # scores"
      by blast+
    from data2Document_wellformed [OF this] show ?thesis
      by (simp add: data2Document_firstRow)
  qed
  have two: "\<exists>docs. Retrieve env r query opts calls = (Ok docs, calls @ [searchCall r dense k])
            \<and> list_all2 (\<lambda>res doc. \<exists>is cs score scores.
                  ColumnVarChar defaultReturnFieldID (ID doc # is) \<in> set (Fields res)
                \<and> ColumnVarChar defaultReturnFieldContent (Content doc # cs) \<in> set (Fields res)
                \<and> ResultCount res \<noteq> 0
                \<and> Scores res = score # scores
                \<and> MetaData doc =
                    [docMetaDataKeyScore \<mapsto> Float64 (float64 env score),
                     docMetaDataKeyDSL \<mapsto> DSLInfo ?dsl])
                result docs"
    if emb: "retrieverCustomEmbedding env query (resolveOptions r opts) = Ok dense"
      and k: "TopK (rconfig r) = Some k"
      and search: "Search env calls (searchCall r dense k) = Inr result"
      and wf: "\<forall>res \<in> set result.
             distinct (map Name (Fields res))
           \<and> (\<exists>i is. ColumnVarChar defaultReturnFieldID (i # is) \<in> set (Fields res))
           \<and> (\<exists>c cs. ColumnVarChar defaultReturnFieldContent (c # cs) \<in> set (Fields res))
           \<and> ResultCount res \<noteq> 0
           \<and> Scores res \<noteq> []"
  proof -
    have "\<exists>d :: ('f, 'd) Document. data2Document env res = Ok d" if "res \<in> set result" for res
    proof -
      from wf that obtain i "is" c cs where
        h: "distinct (map Name (Fields res))"
          "ColumnVarChar defaultReturnFieldID (i # is) \<in> set (Fields res)"
          "ColumnVarChar defaultReturnFieldContent (c # cs) \<in> set (Fields res)"
          "ResultCount res \<noteq> 0" "Scores res \<noteq> []"
        by blast
      from h(5) obtain score scores where "Scores res = score # scores"
        by (cases "Scores res") auto
      from data2Document_wellformed [OF h(1,2,3,4) this] show ?thesis by blast
    qed
    then have "\<forall>res \<in> set result. \<exists>d :: ('f, 'd) Document. data2Document env res = Ok d"
      by blast
    from Retrieve_loop_total [OF this, of ?dsl "[]"] obtain docs where
      loop: "Retrieve_loop env ?dsl result [] = Ok docs"
      by blast
    from emb k search loop
    have "Retrieve env r query opts calls = (Ok docs, calls @ [searchCall r dense k])"
      by (simp add: Retrieve_def Let_def)
    with Retrieve_loop_top_rows [OF loop] show ?thesis by blast
  qed
  have three: "\<exists>dense' k' result'.
           calls' = calls @ [searchCall r dense' k']
         \<and> Search env calls (searchCall r dense' k') = Inr result'
         \<and> list_all2 (\<lambda>res doc. \<exists>is cs score scores.
               ColumnVarChar defaultReturnFieldID (ID doc # is) \<in> set (Fields res)
             \<and> ColumnVarChar defaultReturnFieldContent (Content doc # cs) \<in> set (Fields res)
             \<and> ResultCount res \<noteq> 0
             \<and> Scores res = score # scores
             \<and> MetaData doc =
                 [docMetaDataKeyScore \<mapsto> Float64 (float64 env score),
                  docMetaDataKeyDSL \<mapsto> DSLInfo ?dsl])
             result' found
         \<and> Retrieve_loop env ?dsl (map firstRow result') [] = Ok found"
    if ok: "Retrieve env r query opts calls = (Ok found, calls')"
  proof -
    from Retrieve_Ok [OF ok] obtain dense' k' result' where
      search: "Search env calls (searchCall r dense' k') = Inr result'"
      and calls': "calls' = calls @ [searchCall r dense' k']"
      and loop: "Retrieve_loop env ?dsl result' [] = Ok found"
      by blast
    from loop have "Retrieve_loop env ?dsl (map firstRow result') [] = Ok found"
      by (simp add: Retrieve_loop_firstRow)
    with calls' search Retrieve_loop_top_rows [OF loop] show ?thesis by blast
  qed
  from one two three show ?thesis by blast
qed

lemma exRetrieve_two:
  "Retrieve exEnvTwoResults (exRetriever (Some 10) okEmbedder) ''hello'' [] []
     = (Ok [\<lparr>ID = ''doc-1'', Content = ''hello'',
             MetaData = [''_score'' \<mapsto> Float64 (1 / 4), ''_dsl'' \<mapsto> DSLInfo ''filter'']\<rparr>,
            \<lparr>ID = ''doc-7'', Content = ''bonjour'',
             MetaData = [''_score'' \<mapsto> Float64 2, ''_dsl'' \<mapsto> DSLInfo ''filter'']\<rparr>],
        [searchCall (exRetriever (Some 10) okEmbedder) [1, 2] 10])"
  by (simp add: Retrieve_def resolveOptions_def GetCommonRetrieverOptions_def
      retrieverCustomEmbedding_def exRetriever_def exRetrieverConfig_def okEmbedder_def
      exEnvTwoResults_def exEnv_def exResult_def exResultOneRow_def data2Document_def
      defaultReturnFieldID_def defaultReturnFieldContent_def ValueByIdx_def WithScore_def
      WithDSLInfo_def docMetaDataKeyScore_def docMetaDataKeyDSL_def)

theorem decode_top_row_only_witness:
  "(data2Document exEnvTwoResults exResultOneRow :: (real, string) Document result)
     = Ok \<lparr>ID = ''doc-7'', Content = ''bonjour'', MetaData = [''_score'' \<mapsto> Float64 2]\<rparr>
   \<and> Retrieve exEnvTwoResults (exRetriever (Some 10) okEmbedder) ''hello'' [] []
     = (Ok [\<lparr>ID = ''doc-1'', Content = ''hello'',
             MetaData = [''_score'' \<mapsto> Float64 (1 / 4), ''_dsl'' \<mapsto> DSLInfo ''filter'']\<rparr>,
            \<lparr>ID = ''doc-7'', Content = ''bonjour'',
             MetaData = [''_score'' \<mapsto> Float64 2, ''_dsl'' \<mapsto> DSLInfo ''filter'']\<rparr>],
        [searchCall (exRetriever (Some 10) okEmbedder) [1, 2] 10])
   \<and> ResultCount exResult = 2
   \<and> Retrieve_loop exEnvTwoResults ''filter'' [firstRow exResult, firstRow exResultOneRow] []
     = Ok [\<lparr>ID = ''doc-1'', Content = ''hello'',
             MetaData = [''_score'' \<mapsto> Float64 (1 / 4), ''_dsl'' \<mapsto> DSLInfo ''filter'']\<rparr>,
            \<lparr>ID = ''doc-7'', Content = ''bonjour'',
             MetaData = [''_score'' \<mapsto> Float64 2, ''_dsl'' \<mapsto> DSLInfo ''filter'']\<rparr>]"
proof -
  let ?E = exEnvTwoResults
  let ?r = "exRetriever (Some 10) okEmbedder"
  let ?docs = "[\<lparr>ID = ''doc-1'', Content = ''hello'',
             MetaData = [''_score'' \<mapsto> Float64 (1 / 4), ''_dsl'' \<mapsto> DSLInfo ''filter'']\<rparr>,
            \<lparr>ID = ''doc-7'', Content = ''bonjour'',
             MetaData = [''_score'' \<mapsto> Float64 2, ''_dsl'' \<mapsto> DSLInfo ''filter'']\<rparr>]
            :: (real, string) Document list"
  have row: "distinct (map Name (Fields exResultOneRow))
       \<and> ColumnVarChar defaultReturnFieldID (''doc-7'' # []) \<in> set (Fields exResultOneRow)
       \<and> ColumnVarChar defaultReturnFieldContent (''bonjour'' # []) \<in> set (Fields exResultOneRow)
       \<and> ResultCount exResultOneRow \<noteq> 0
       \<and> Scores exResultOneRow = 2 # []"
    by (simp add: exResultOneRow_def defaultReturnFieldID_def defaultReturnFieldContent_def)
  have emb: "retrieverCustomEmbedding ?E ''hello'' (resolveOptions ?r []) = Ok [1, 2]"
    by (simp add: retrieverCustomEmbedding_def resolveOptions_def GetCommonRetrieverOptions_def
        exRetriever_def exRetrieverConfig_def okEmbedder_def exEnvTwoResults_def exEnv_def)
  have k: "TopK (rconfig ?r) = Some 10"
    by (simp add: exRetriever_def exRetrieverConfig_def)
  have search: "Search ?E [] (searchCall ?r [1, 2] 10) = Inr [exResult, exResultOneRow]"
    by (simp add: exEnvTwoResults_def exEnv_def)
  have wf: "\<forall>res \<in> set [exResult, exResultOneRow].
             distinct (map Name (Fields res))
           \<and> (\<exists>i is. ColumnVarChar defaultReturnFieldID (i # is) \<in> set (Fields res))
           \<and> (\<exists>c cs. ColumnVarChar defaultReturnFieldContent (c # cs) \<in> set (Fields res))
           \<and> ResultCount res \<noteq> 0
           \<and> Scores res \<noteq> []"
    by (simp add: exResult_def exResultOneRow_def defaultReturnFieldID_def
        defaultReturnFieldContent_def)
  have dsl: "roptDSLInfo (resolveOptions ?r []) = ''filter''"
    by (simp add: resolveOptions_def GetCommonRetrieverOptions_def exRetriever_def
        exRetrieverConfig_def)
  note inst = decode_top_row_only [where env = ?E and r = ?r and query = "''hello''"
      and opts = "[]" and calls = "[]" and dense = "[1, 2]" and k = 10
      and result = "[exResult, exResultOneRow]" and data = exResultOneRow
      and docID = "''doc-7''" and ids = "[]" and content = "''bonjour''" and contents = "[]"
      and score = 2 and scores = "[]" and found = ?docs
      and calls' = "[searchCall ?r [1, 2] 10]"]
  from inst row
  have one: "(data2Document ?E exResultOneRow :: (real, string) Document result)
     = Ok \<lparr>ID = ''doc-7'', Content = ''bonjour'', MetaData = [''_score'' \<mapsto> Float64 2]\<rparr>"
    by (simp add: docMetaDataKeyScore_def exEnvTwoResults_def exEnv_def)
  from inst emb k search wf obtain docs where
    two: "Retrieve ?E ?r ''hello'' [] [] = (Ok docs, [] @ [searchCall ?r [1, 2] 10])"
    by blast
  with exRetrieve_two have run: "Retrieve ?E ?r ''hello'' [] [] = (Ok ?docs, [searchCall ?r [1, 2] 10])"
    by simp
  from inst run obtain dense' k' result' where
    three: "Search ?E [] (searchCall ?r dense' k') = Inr result'"
      "Retrieve_loop ?E (roptDSLInfo (resolveOptions ?r [])) (map firstRow result') [] = Ok ?docs"
    by blast
  from three(1) have "result' = [exResult, exResultOneRow]"
    by (simp add: exEnvTwoResults_def exEnv_def)
  with three(2) dsl
  have first: "Retrieve_loop ?E ''filter'' [firstRow exResult, firstRow exResultOneRow] [] = Ok ?docs"
    by simp
  have count: "ResultCount exResult = 2" by (simp add: exResult_def)
  from one run count first show ?thesis by simp
qed

lemma Retrieve_no_search_on_embedding_failure:
  "retrieverCustomEmbedding env query (resolveOptions r opts) = Error e \<Longrightarrow>
     Retrieve env r query opts calls = (Error e, calls)"
  by (simp add: Retrieve_def Let_def)

lemma Retrieve_search_reads_configuration:
  assumes "retrieverCustomEmbedding env query (resolveOptions r opts) = Ok dense"
    and "TopK (rconfig r) = Some k"
  shows "snd (Retrieve env r query opts calls) = calls @ [searchCall r dense k]"
    and "searchCollection (searchCall r dense k) = rCollection (rconfig r)"
    and "searchOutputFields (searchCall r dense k)
           = [defaultReturnFieldID, defaultReturnFieldContent]"
    and "searchPartitions (searchCall r dense k) = []"
    and "searchTopK (searchCall r dense k) = k"
  using assms by (simp_all add: Retrieve_def Let_def searchCall_def split: sum.split)

lemma resolveOptions_WithTopK:
  "roptTopK (resolveOptions r (opts @ [WithTopK j])) = Some j"
  by (simp add: resolveOptions_def GetCommonRetrieverOptions_def)

text \<open>
  C2. \<^verbatim>\<open>Retrieve\<close> lays the caller's options over the configuration, the configured
  partition as the sub-index and the top-K among them, and reports the resolved top-K to
  its start callback; but the one search it issues is handed the literal empty partition
  list and \<^verbatim>\<open>*r.config.TopK\<close>. With the partition \<^verbatim>\<open>default\<close> set at construction and a
  top-K of 3 passed by the caller over a configured 10, the resolved options hold the
  partition and the top-K 3, and the search is issued on no partition with the limit 10.
\<close>

theorem Retrieve_ignores_resolved_options:
  "NewRetriever exEnv (exRetrieverConfig [] (Some 10) okEmbedder)
     = Ok (exRetriever (Some 10) okEmbedder)
   \<and> Partition (rconfig (exRetriever (Some 10) okEmbedder)) = ''default''
   \<and> roptSubIndex (resolveOptions (exRetriever (Some 10) okEmbedder) [WithTopK 3])
       = Some ''default''
   \<and> roptTopK (resolveOptions (exRetriever (Some 10) okEmbedder) [WithTopK 3]) = Some 3
   \<and> snd (Retrieve exEnv (exRetriever (Some 10) okEmbedder) ''hello'' [WithTopK 3] [])
       = [searchCall (exRetriever (Some 10) okEmbedder) [1, 2] 10]
   \<and> searchPartitions (searchCall (exRetriever (Some 10) okEmbedder) [1, 2 :: real] 10) = []
   \<and> searchTopK (searchCall (exRetriever (Some 10) okEmbedder) [1, 2 :: real] 10) = 10"
  by (simp add: NewRetriever_def Retrieve_def resolveOptions_def GetCommonRetrieverOptions_def
      retrieverCustomEmbedding_def exRetriever_def exRetrieverConfig_def okEmbedder_def
      exEnv_def searchCall_def defaultPartition_def)

text \<open>
  C1. The configuration documents that \<^verbatim>\<open>TopK\<close> is set to 100 when it is not given, and
  the constant \<open>defaultTopK\<close> is declared for it, but neither \<^verbatim>\<open>NewRetriever\<close> nor
  \<^verbatim>\<open>Retrieve\<close> applies it: with no top-K in the configuration and none from the caller,
  \<^verbatim>\<open>Retrieve\<close> dereferences the nil pointer while building the search call and panics, and
  no search is issued.
\<close>

theorem Retrieve_nil_TopK_panics:
  "NewRetriever exEnv (exRetrieverConfig [] None okEmbedder) = Ok (exRetriever None okEmbedder)
   \<and> roptTopK (resolveOptions (exRetriever None okEmbedder) []) = None
   \<and> Retrieve exEnv (exRetriever None okEmbedder) ''hello'' [] []
       = (Panic NilPointerDereference, [])
   \<and> defaultTopK = 100"
  by (simp add: NewRetriever_def Retrieve_def resolveOptions_def GetCommonRetrieverOptions_def
      retrieverCustomEmbedding_def exRetriever_def exRetrieverConfig_def okEmbedder_def
      exEnv_def defaultPartition_def defaultTopK_def)

end
